theory Spec2Isabelle
  imports Complex_Main "HOL-Library.Multiset"
begin

section \<open>JavaScript values\<close>

text \<open>
  The functions of \<^verbatim>\<open>utils/balloonData.ts\<close> and \<^verbatim>\<open>components/BalloonMap.tsx\<close> take
  values of type \<^verbatim>\<open>any\<close>. A number is a binary64 value: a finite value (a real that
  binary64 represents; the two zeros are one value), NaN or one of the two infinities.
  A string is the list of its code units below 256. An object is the list of its own
  properties (the first binding of a key is the one that is read). \<open>JThrowing\<close> stands
  for an object every property read of which throws (an accessor that throws, a revoked
  proxy): it is what the \<^verbatim>\<open>try\<close> block of the extractor is there for.
\<close>

datatype jsnum = Fin real | NaN | PInf | NInf

datatype js =
    JUndefined
  | JNull
  | JBool bool
  | JNum jsnum
  | JStr string
  | JArr "js list"
  | JObj "(string \<times> js) list"
  | JThrowing

datatype error = TypeError | Thrown | InvalidLatLng | Unmodelled

definition isFinite :: "jsnum \<Rightarrow> bool" where
  "isFinite x = (case x of Fin _ \<Rightarrow> True | _ \<Rightarrow> False)"

definition isNaN :: "jsnum \<Rightarrow> bool" where
  "isNaN x = (case x of NaN \<Rightarrow> True | _ \<Rightarrow> False)"

fun js_neg :: "jsnum \<Rightarrow> jsnum" where
  "js_neg (Fin x) = Fin (- x)"
| "js_neg NaN = NaN"
| "js_neg PInf = NInf"
| "js_neg NInf = PInf"

text \<open>The comparison \<^verbatim>\<open>a <= b\<close> on numbers: false as soon as one side is NaN.\<close>

fun js_le :: "jsnum \<Rightarrow> jsnum \<Rightarrow> bool" where
  "js_le NaN _ = False"
| "js_le _ NaN = False"
| "js_le NInf _ = True"
| "js_le _ PInf = True"
| "js_le (Fin a) (Fin b) = (a \<le> b)"
| "js_le (Fin a) NInf = False"
| "js_le PInf (Fin b) = False"
| "js_le PInf NInf = False"

text \<open>
  Rounding a real to binary64, to the nearest value with ties to the even significand.
  \<open>binaryExponent a\<close> is the exponent \<open>e\<close> of the binade of \<open>a\<close>
  (\<open>2^e \<le> a < 2^(e+1)\<close>), found by bisection and kept within \<open>[-1022, 1025]\<close>: below
  \<open>2^-1022\<close> the values are subnormal and share the spacing \<open>2^-1074\<close>. The spacing
  of the binade is \<open>2^(e-52)\<close>; the result is the multiple of the spacing nearest to
  \<open>a\<close>, and an infinity when that reaches \<open>2^1024\<close>.
\<close>

definition pow2 :: "int \<Rightarrow> real" where
  "pow2 e = (if 0 \<le> e then 2 ^ nat e else 1 / 2 ^ nat (- e))"

definition binaryExponent :: "real \<Rightarrow> int" where
  "binaryExponent a =
     foldl (\<lambda>e s. if pow2 (e + s) \<le> a then e + s else e) (- 1022)
       [1024, 512, 256, 128, 64, 32, 16, 8, 4, 2, 1]"

definition roundHalfEven :: "real \<Rightarrow> int" where
  "roundHalfEven t =
     (let f = \<lfloor>t\<rfloor>; r = t - of_int f
      in if r < 1 / 2 then f else if 1 / 2 < r then f + 1 else if even f then f else f + 1)"

definition round64 :: "real \<Rightarrow> jsnum" where
  "round64 x =
     (let a = \<bar>x\<bar>
      in if pow2 1024 \<le> a then (if 0 < x then PInf else NInf)
         else
           let q = pow2 (binaryExponent a - 52);
               y = of_int (roundHalfEven (a / q)) * q
           in if pow2 1024 \<le> y then (if 0 < x then PInf else NInf)
              else Fin (if x < 0 then - y else y))"

text \<open>\<^verbatim>\<open>typeof\<close>, truthiness and \<^verbatim>\<open>Array.isArray\<close>.\<close>

fun typeof :: "js \<Rightarrow> string" where
  "typeof JUndefined = ''undefined''"
| "typeof JNull = ''object''"
| "typeof (JBool _) = ''boolean''"
| "typeof (JNum _) = ''number''"
| "typeof (JStr _) = ''string''"
| "typeof (JArr _) = ''object''"
| "typeof (JObj _) = ''object''"
| "typeof JThrowing = ''object''"

fun truthy :: "js \<Rightarrow> bool" where
  "truthy JUndefined = False"
| "truthy JNull = False"
| "truthy (JBool b) = b"
| "truthy (JNum x) = (x \<noteq> NaN \<and> x \<noteq> Fin 0)"
| "truthy (JStr s) = (s \<noteq> [])"
| "truthy (JArr _) = True"
| "truthy (JObj _) = True"
| "truthy JThrowing = True"

fun isArray :: "js \<Rightarrow> bool" where
  "isArray (JArr _) = True"
| "isArray _ = False"

section \<open>The built-in parseFloat\<close>

text \<open>
  \<^verbatim>\<open>parseFloat\<close>, as the language defines it: trim the leading white space; take the
  longest prefix of what is left that satisfies the syntax of a \<^verbatim>\<open>StrDecimalLiteral\<close>;
  when there is none the result is NaN, otherwise it is the value of that literal,
  rounded to binary64. The syntax:
  \<^verbatim>\<open>
  StrDecimalLiteral         ::: StrUnsignedDecimalLiteral | + StrUnsignedDecimalLiteral
                              | - StrUnsignedDecimalLiteral
  StrUnsignedDecimalLiteral ::: Infinity | DecimalDigits . DecimalDigits? ExponentPart?
                              | . DecimalDigits ExponentPart? | DecimalDigits ExponentPart?
  ExponentPart              ::: (e | E) SignedInteger
  SignedInteger             ::: DecimalDigits | + DecimalDigits | - DecimalDigits
  \<close>
\<close>

definition isDigit :: "char \<Rightarrow> bool" where
  "isDigit c = (c \<in> set ''0123456789'')"

definition digitVal :: "char \<Rightarrow> nat" where
  "digitVal c = of_char c - 48"

definition digitsVal :: "string \<Rightarrow> nat" where
  "digitsVal ds = foldl (\<lambda>n c. 10 * n + digitVal c) 0 ds"

definition isWhiteSpace :: "char \<Rightarrow> bool" where
  "isWhiteSpace c = ((of_char c :: nat) \<in> {9, 10, 11, 12, 13, 32, 160})"

definition pow10 :: "int \<Rightarrow> real" where
  "pow10 e = (if 0 \<le> e then 10 ^ nat e else 1 / 10 ^ nat (- e))"

text \<open>Whether a whole string is a \<^verbatim>\<open>SignedInteger\<close>, and its value.\<close>

definition isSignedInteger :: "string \<Rightarrow> bool" where
  "isSignedInteger r =
     (case r of
        [] \<Rightarrow> False
      | c # ds \<Rightarrow>
          if c = CHR ''+'' \<or> c = CHR ''-'' then ds \<noteq> [] \<and> list_all isDigit ds
          else list_all isDigit r)"

definition signedIntegerValue :: "string \<Rightarrow> int" where
  "signedIntegerValue r =
     (case r of
        [] \<Rightarrow> 0
      | c # ds \<Rightarrow>
          if c = CHR ''-'' then - int (digitsVal ds)
          else if c = CHR ''+'' then int (digitsVal ds)
          else int (digitsVal r))"

text \<open>Whether a whole string is an optional \<^verbatim>\<open>ExponentPart\<close>, and the exponent (0 when empty).\<close>

definition isExponentPartOpt :: "string \<Rightarrow> bool" where
  "isExponentPartOpt r =
     (case r of
        [] \<Rightarrow> True
      | c # r' \<Rightarrow> (c = CHR ''e'' \<or> c = CHR ''E'') \<and> isSignedInteger r')"

definition exponentValue :: "string \<Rightarrow> int" where
  "exponentValue r = (case r of [] \<Rightarrow> 0 | c # r' \<Rightarrow> signedIntegerValue r')"

text \<open>
  Whether a whole string is a \<^verbatim>\<open>StrUnsignedDecimalLiteral\<close>: the leading digits, then
  either nothing more (and there are digits), or a point, the digits of the fraction
  (with digits on one side of the point at least) and an optional exponent, or an
  exponent right after the digits.
\<close>

definition isUnsignedLiteral :: "string \<Rightarrow> bool" where
  "isUnsignedLiteral r =
     (r = ''Infinity'' \<or>
      (let ip = takeWhile isDigit r; r1 = dropWhile isDigit r
       in case r1 of
            [] \<Rightarrow> ip \<noteq> []
          | c # r2 \<Rightarrow>
              if c = CHR ''.''
              then (ip \<noteq> [] \<or> takeWhile isDigit r2 \<noteq> []) \<and> isExponentPartOpt (dropWhile isDigit r2)
              else ip \<noteq> [] \<and> isExponentPartOpt r1))"

text \<open>
  The value of a \<^verbatim>\<open>StrUnsignedDecimalLiteral\<close>: the digits before and after the point
  read as one integer, scaled by ten to the exponent less the number of digits of the
  fraction, and rounded.
\<close>

definition unsignedValue :: "string \<Rightarrow> jsnum" where
  "unsignedValue r =
     (if r = ''Infinity'' then PInf
      else
        let ip = takeWhile isDigit r;
            r1 = dropWhile isDigit r;
            fp = (case r1 of [] \<Rightarrow> []
                  | c # r2 \<Rightarrow> if c = CHR ''.'' then takeWhile isDigit r2 else []);
            ex = (case r1 of [] \<Rightarrow> []
                  | c # r2 \<Rightarrow> if c = CHR ''.'' then dropWhile isDigit r2 else r1)
        in round64 (real (digitsVal (ip @ fp)) * pow10 (exponentValue ex - int (length fp))))"

definition isStrDecimalLiteral :: "string \<Rightarrow> bool" where
  "isStrDecimalLiteral s =
     (case s of
        [] \<Rightarrow> False
      | c # r \<Rightarrow> if c = CHR ''+'' \<or> c = CHR ''-'' then isUnsignedLiteral r else isUnsignedLiteral s)"

definition literalValue :: "string \<Rightarrow> jsnum" where
  "literalValue s =
     (case s of
        [] \<Rightarrow> NaN
      | c # r \<Rightarrow>
          if c = CHR ''-'' then js_neg (unsignedValue r)
          else if c = CHR ''+'' then unsignedValue r
          else unsignedValue s)"

text \<open>The longest prefix of \<open>s\<close>, of \<open>k\<close> characters at most, that is a literal.\<close>

fun longestPrefix :: "nat \<Rightarrow> string \<Rightarrow> string option" where
  "longestPrefix 0 s = None"
| "longestPrefix (Suc k) s =
     (if isStrDecimalLiteral (take (Suc k) s) then Some (take (Suc k) s)
      else longestPrefix k s)"

definition parseFloat :: "string \<Rightarrow> jsnum" where
  "parseFloat s =
     (let trimmed = dropWhile isWhiteSpace s
      in case longestPrefix (length trimmed) trimmed of
           None \<Rightarrow> NaN
         | Some lit \<Rightarrow> literalValue lit)"

section \<open>Numeric coercion\<close>

text \<open>
  \<^verbatim>\<open>
  function safeNumber(value: any): number | null {
    if (typeof value === 'number' && !isNaN(value)) return value;
    if (typeof value === 'string') {
      const parsed = parseFloat(value);
      if (!isNaN(parsed) && isFinite(parsed)) return parsed;
    }
    return null;
  }
  \<close>
\<close>

definition safeNumber :: "js \<Rightarrow> jsnum option" where
  "safeNumber v =
     (case v of
        JNum x \<Rightarrow> if \<not> isNaN x then Some x else None
      | JStr s \<Rightarrow>
          (let parsed = parseFloat s
           in if \<not> isNaN parsed \<and> isFinite parsed then Some parsed else None)
      | _ \<Rightarrow> None)"

section \<open>Property reads\<close>

text \<open>
  A canonical array index as a property key: \<^verbatim>\<open>"0"\<close>, \<^verbatim>\<open>"1"\<close>, \<^verbatim>\<open>"17"\<close>, with no
  leading zero.
\<close>

definition indexKey :: "string \<Rightarrow> nat option" where
  "indexKey k =
     (if k \<noteq> [] \<and> list_all isDigit k \<and> (k = ''0'' \<or> hd k \<noteq> CHR ''0'')
      then Some (digitsVal k) else None)"

text \<open>
  \<^verbatim>\<open>v.k\<close> and \<^verbatim>\<open>v[k]\<close>. Reading a property of \<^verbatim>\<open>null\<close> or \<^verbatim>\<open>undefined\<close> is a
  TypeError; a primitive has none of the keys this program reads, apart from the
  indices and the length of a string.
\<close>

fun getProp :: "js \<Rightarrow> string \<Rightarrow> error + js" where
  "getProp JUndefined k = Inl TypeError"
| "getProp JNull k = Inl TypeError"
| "getProp JThrowing k = Inl Thrown"
| "getProp (JObj kvs) k = Inr (case map_of kvs k of Some v \<Rightarrow> v | None \<Rightarrow> JUndefined)"
| "getProp (JArr xs) k =
     Inr (if k = ''length'' then JNum (Fin (real (length xs)))
          else case indexKey k of
                 Some i \<Rightarrow> if i < length xs then xs ! i else JUndefined
               | None \<Rightarrow> JUndefined)"
| "getProp (JStr s) k =
     Inr (if k = ''length'' then JNum (Fin (real (length s)))
          else case indexKey k of
                 Some i \<Rightarrow> if i < length s then JStr [s ! i] else JUndefined
               | None \<Rightarrow> JUndefined)"
| "getProp (JBool b) k = Inr JUndefined"
| "getProp (JNum x) k = Inr JUndefined"

definition nullish :: "js \<Rightarrow> bool" where
  "nullish v = (v = JUndefined \<or> v = JNull)"

text \<open>Optional chaining \<^verbatim>\<open>v?.k\<close>.\<close>

definition optChain :: "js \<Rightarrow> string \<Rightarrow> error + js" where
  "optChain v k = (if nullish v then Inr JUndefined else getProp v k)"

text \<open>
  \<^verbatim>\<open>item?.k1 ?? item?.k2 ?? ... ?? item?.kn\<close>: the reads go from left to right and stop at
  the first value that is neither \<^verbatim>\<open>null\<close> nor \<^verbatim>\<open>undefined\<close>; the last read is the
  result when all the others are.
\<close>

fun firstPresent :: "js \<Rightarrow> string list \<Rightarrow> error + js" where
  "firstPresent item [] = Inr JUndefined"
| "firstPresent item (k # ks) =
     (case optChain item k of
        Inl e \<Rightarrow> Inl e
      | Inr v \<Rightarrow> if nullish v \<and> ks \<noteq> [] then firstPresent item ks else Inr v)"

section \<open>Position extraction\<close>

record BalloonPosition =
  id_pos :: string
  lat :: jsnum
  lon :: jsnum
  altitude :: "jsnum option"
  timestamp :: "jsnum option"
  hourIndex :: "nat option"

text \<open>
  The decimal text of an index, as the template \<^verbatim>\<open>`balloon-${hourIndex}-${idx}`\<close> prints
  it. \<^verbatim>\<open>hourIndex\<close> is declared a \<^verbatim>\<open>number\<close>; its only caller passes the index of a
  \<^verbatim>\<open>forEach\<close>, so it is a natural number here.
\<close>

function toString_nat :: "nat \<Rightarrow> string" where
  "toString_nat n =
     (if n < 10 then [char_of (48 + n)]
      else toString_nat (n div 10) @ [char_of (48 + n mod 10)])"
  by pat_completeness auto
termination
  by (relation "measure id") auto

declare toString_nat.simps [simp del]

definition balloonId :: "nat \<Rightarrow> nat \<Rightarrow> string" where
  "balloonId hourIdx idx = ''balloon-'' @ toString_nat hourIdx @ ''-'' @ toString_nat idx"

text \<open>
  The callback of \<^verbatim>\<open>forEach\<close>; the three branches of \<^verbatim>\<open>extractBalloonPositions\<close> (the
  payload is an array, has a \<^verbatim>\<open>balloons\<close> array, has a \<^verbatim>\<open>data\<close> array) carry the same
  text:
  \<^verbatim>\<open>
  let lat = null, lon = null, alt = null;
  if (Array.isArray(item) && item.length >= 2) {
    lat = safeNumber(item[0]); lon = safeNumber(item[1]);
    alt = item.length >= 3 ? safeNumber(item[2]) : null;
  } else if (item && typeof item === 'object') {
    lat = safeNumber(item?.lat ?? item?.latitude ?? item?.y ?? item?.[0]);
    lon = safeNumber(item?.lon ?? item?.lng ?? item?.longitude ?? item?.[1]);
    alt = safeNumber(item?.alt ?? item?.altitude ?? item?.z ?? item?.[2]);
  }
  if (lat !== null && lon !== null && lat >= -90 && lat <= 90 && lon >= -180 && lon <= 180) {
    positions.push({ id: `balloon-${hourIndex}-${idx}`, lat, lon,
                     altitude: alt ?? undefined, hourIndex });
  }
  \<close>
\<close>

definition objectCoords :: "js \<Rightarrow> error + (jsnum option \<times> jsnum option \<times> jsnum option)" where
  "objectCoords item =
     (case firstPresent item [''lat'', ''latitude'', ''y'', ''0''] of
        Inl e \<Rightarrow> Inl e
      | Inr a \<Rightarrow>
          (case firstPresent item [''lon'', ''lng'', ''longitude'', ''1''] of
             Inl e \<Rightarrow> Inl e
           | Inr b \<Rightarrow>
               (case firstPresent item [''alt'', ''altitude'', ''z'', ''2''] of
                  Inl e \<Rightarrow> Inl e
                | Inr c \<Rightarrow> Inr (safeNumber a, safeNumber b, safeNumber c))))"

definition readCoords :: "js \<Rightarrow> error + (jsnum option \<times> jsnum option \<times> jsnum option)" where
  "readCoords item =
     (case item of
        JArr xs \<Rightarrow>
          if 2 \<le> length xs
          then Inr (safeNumber (xs ! 0), safeNumber (xs ! 1),
                    if 3 \<le> length xs then safeNumber (xs ! 2) else None)
          else objectCoords item
      | _ \<Rightarrow>
          if truthy item \<and> typeof item = ''object'' then objectCoords item
          else Inr (None, None, None))"

definition inRange :: "jsnum \<Rightarrow> jsnum \<Rightarrow> bool" where
  "inRange la lo =
     (js_le (Fin (- 90)) la \<and> js_le la (Fin 90) \<and> js_le (Fin (- 180)) lo \<and> js_le lo (Fin 180))"

definition forEachBody ::
  "nat \<Rightarrow> BalloonPosition list \<Rightarrow> js \<Rightarrow> nat \<Rightarrow> error + BalloonPosition list" where
  "forEachBody hourIdx positions item idx =
     (case readCoords item of
        Inl e \<Rightarrow> Inl e
      | Inr (Some la, Some lo, alt) \<Rightarrow>
          if inRange la lo
          then Inr (positions @
                 [\<lparr>id_pos = balloonId hourIdx idx, lat = la, lon = lo, altitude = alt,
                   timestamp = None, hourIndex = Some hourIdx\<rparr>])
          else Inr positions
      | Inr _ \<Rightarrow> Inr positions)"

text \<open>
  \<^verbatim>\<open>forEach\<close> over the elements, from index \<open>idx\<close> on: the array \<^verbatim>\<open>positions\<close> as it
  stands when the loop ends, and the exception that ended it, if one did.
\<close>

fun forEach ::
  "nat \<Rightarrow> js list \<Rightarrow> nat \<Rightarrow> BalloonPosition list \<Rightarrow> BalloonPosition list \<times> error option" where
  "forEach hourIdx [] idx positions = (positions, None)"
| "forEach hourIdx (item # items) idx positions =
     (case forEachBody hourIdx positions item idx of
        Inl e \<Rightarrow> (positions, Some e)
      | Inr positions' \<Rightarrow> forEach hourIdx items (Suc idx) positions')"

fun elems :: "js \<Rightarrow> js list" where
  "elems (JArr xs) = xs"
| "elems _ = []"

text \<open>
  The \<^verbatim>\<open>try\<close> block of \<^verbatim>\<open>extractBalloonPositions\<close>, entered with a truthy payload of
  type object:
  \<^verbatim>\<open>
  if (Array.isArray(data)) { data.forEach(...) }
  else if (data.balloons && Array.isArray(data.balloons)) { data.balloons.forEach(...) }
  else if (data.data && Array.isArray(data.data)) { data.data.forEach(...) }
  \<close>
\<close>

definition tryBlock :: "js \<Rightarrow> nat \<Rightarrow> BalloonPosition list \<times> error option" where
  "tryBlock data hourIdx =
     (if isArray data then forEach hourIdx (elems data) 0 []
      else
        case getProp data ''balloons'' of
          Inl e \<Rightarrow> ([], Some e)
        | Inr b \<Rightarrow>
            if truthy b \<and> isArray b then forEach hourIdx (elems b) 0 []
            else
              (case getProp data ''data'' of
                 Inl e \<Rightarrow> ([], Some e)
               | Inr d \<Rightarrow>
                   if truthy d \<and> isArray d then forEach hourIdx (elems d) 0 []
                   else ([], None)))"

text \<open>
  \<^verbatim>\<open>
  const positions = [];
  if (!data || typeof data !== 'object') return positions;
  try { ... } catch (error) { console.error(...) }
  return positions;
  \<close>
  The handler only logs, so the function returns \<^verbatim>\<open>positions\<close> whether the block ended
  normally or by an exception.
\<close>

definition extractBalloonPositions :: "js \<Rightarrow> nat \<Rightarrow> BalloonPosition list" where
  "extractBalloonPositions data hourIdx =
     (if \<not> truthy data \<or> typeof data \<noteq> ''object'' then []
      else fst (tryBlock data hourIdx))"

section \<open>Merging the hours\<close>

text \<open>
  A \<^verbatim>\<open>Map<string, BalloonPosition>\<close> keeps its keys in insertion order: \<^verbatim>\<open>set\<close> on a key
  that is present replaces the value where it stands, \<^verbatim>\<open>set\<close> on a new key appends.
\<close>

type_synonym balloonMap = "(string \<times> BalloonPosition) list"

definition map_has :: "balloonMap \<Rightarrow> string \<Rightarrow> bool" where
  "map_has m k = (map_of m k \<noteq> None)"

fun map_set :: "balloonMap \<Rightarrow> string \<Rightarrow> BalloonPosition \<Rightarrow> balloonMap" where
  "map_set [] k v = [(k, v)]"
| "map_set ((k', v') # m) k v = (if k' = k then (k, v) # m else (k', v') # map_set m k v)"

text \<open>\<^verbatim>\<open>p?.hourIndex ?? 24\<close>, for an entry that may be missing.\<close>

definition hourOr24 :: "BalloonPosition option \<Rightarrow> nat" where
  "hourOr24 p = (case p of None \<Rightarrow> 24 | Some q \<Rightarrow> (case hourIndex q of None \<Rightarrow> 24 | Some h \<Rightarrow> h))"

text \<open>
  \<^verbatim>\<open>
  if (!balloonMap.has(pos.id) ||
      (pos.hourIndex ?? 24) < (balloonMap.get(pos.id)?.hourIndex ?? 24)) {
    balloonMap.set(pos.id, pos);
  }
  \<close>
\<close>

definition mergeStep :: "balloonMap \<Rightarrow> BalloonPosition \<Rightarrow> balloonMap" where
  "mergeStep m pos =
     (if \<not> map_has m (id_pos pos) \<or> hourOr24 (Some pos) < hourOr24 (map_of m (id_pos pos))
      then map_set m (id_pos pos) pos
      else m)"

text \<open>
  \<^verbatim>\<open>
  data24h.forEach((data, hourIndex) => {
    if (!data) return;
    const positions = extractBalloonPositions(data, hourIndex);
    positions.forEach((pos) => { ... });
  });
  return Array.from(balloonMap.values());
  \<close>
\<close>

fun mergeHours :: "js list \<Rightarrow> nat \<Rightarrow> balloonMap \<Rightarrow> balloonMap" where
  "mergeHours [] hourIdx m = m"
| "mergeHours (d # ds) hourIdx m =
     mergeHours ds (Suc hourIdx)
       (if \<not> truthy d then m else foldl mergeStep m (extractBalloonPositions d hourIdx))"

definition extractAllBalloonPositions :: "js list \<Rightarrow> BalloonPosition list" where
  "extractAllBalloonPositions data24h = map snd (mergeHours data24h 0 [])"

section \<open>Hazard styling and ranking\<close>

text \<open>\<^verbatim>\<open>a || b\<close>, and the method call \<^verbatim>\<open>.toLowerCase()\<close>, which only a string has.\<close>

definition orElse :: "js \<Rightarrow> js \<Rightarrow> js" where
  "orElse a b = (if truthy a then a else b)"

definition toLowerChar :: "char \<Rightarrow> char" where
  "toLowerChar c =
     (let n = (of_char c :: nat)
      in if (65 \<le> n \<and> n \<le> 90) \<or> (192 \<le> n \<and> n \<le> 222 \<and> n \<noteq> 215)
         then char_of (n + 32) else c)"

definition toLowerCase :: "js \<Rightarrow> error + string" where
  "toLowerCase v = (case v of JStr s \<Rightarrow> Inr (map toLowerChar s) | _ \<Rightarrow> Inl TypeError)"

text \<open>\<^verbatim>\<open>(feature?.properties?.k || dflt).toLowerCase()\<close>\<close>

definition loweredProperty :: "js \<Rightarrow> string \<Rightarrow> string \<Rightarrow> error + string" where
  "loweredProperty feature k dflt =
     (case optChain feature ''properties'' of
        Inl e \<Rightarrow> Inl e
      | Inr p \<Rightarrow>
          (case optChain p k of
             Inl e \<Rightarrow> Inl e
           | Inr v \<Rightarrow> toLowerCase (orElse v (JStr dflt))))"







text \<open>
  \<^verbatim>\<open>
  const severityOrder = { 'extreme': 0, 'severe': 1, 'moderate': 2, 'minor': 3, 'unknown': 4 };
  return [...validAlerts].sort((a, b) => {
    const aSeverity = (a?.properties?.severity || 'unknown').toLowerCase();
    const bSeverity = (b?.properties?.severity || 'unknown').toLowerCase();
    return (severityOrder[aSeverity] ?? 99) - (severityOrder[bSeverity] ?? 99);
  });
  \<close>
  The table is an object literal, so it also answers to the keys it inherits. Two of
  them are lower-case words, \<^verbatim>\<open>constructor\<close> and \<^verbatim>\<open>__proto__\<close>: what is read there is
  a function or an object, which \<^verbatim>\<open>??\<close> lets through and the subtraction turns into NaN.
\<close>

datatype tableEntry = Own nat | Inherited | Absent

definition severityOrder :: "string \<Rightarrow> tableEntry" where
  "severityOrder k =
     (if k = ''extreme'' then Own 0
      else if k = ''severe'' then Own 1
      else if k = ''moderate'' then Own 2
      else if k = ''minor'' then Own 3
      else if k = ''unknown'' then Own 4
      else if k = ''constructor'' \<or> k = ''__proto__'' then Inherited
      else Absent)"

text \<open>\<^verbatim>\<open>severityOrder[k] ?? 99\<close>, as the number the subtraction makes of it.\<close>

definition rankValue :: "string \<Rightarrow> jsnum" where
  "rankValue k = (case severityOrder k of Own n \<Rightarrow> Fin (real n) | Inherited \<Rightarrow> NaN | Absent \<Rightarrow> Fin 99)"

text \<open>The subtraction \<^verbatim>\<open>x - y\<close> on numbers.\<close>

definition js_sub :: "jsnum \<Rightarrow> jsnum \<Rightarrow> jsnum" where
  "js_sub x y =
     (case x of
        NaN \<Rightarrow> NaN
      | Fin a \<Rightarrow> (case y of Fin b \<Rightarrow> round64 (a - b) | NaN \<Rightarrow> NaN | PInf \<Rightarrow> NInf | NInf \<Rightarrow> PInf)
      | PInf \<Rightarrow> (case y of NaN \<Rightarrow> NaN | PInf \<Rightarrow> NaN | _ \<Rightarrow> PInf)
      | NInf \<Rightarrow> (case y of NaN \<Rightarrow> NaN | NInf \<Rightarrow> NaN | _ \<Rightarrow> NInf))"

text \<open>
  One side of the comparison, \<^verbatim>\<open>severityOrder[(a?.properties?.severity || 'unknown').toLowerCase()] ?? 99\<close>,
  and the comparison function itself, which reads \<open>a\<close> before \<open>b\<close>.
\<close>

definition severityRank :: "js \<Rightarrow> error + jsnum" where
  "severityRank a =
     (case loweredProperty a ''severity'' ''unknown'' of
        Inl e \<Rightarrow> Inl e
      | Inr sev \<Rightarrow> Inr (rankValue sev))"

definition compareFn :: "js \<Rightarrow> js \<Rightarrow> error + jsnum" where
  "compareFn a b =
     (case severityRank a of
        Inl e \<Rightarrow> Inl e
      | Inr x \<Rightarrow>
          (case severityRank b of
             Inl e \<Rightarrow> Inl e
           | Inr y \<Rightarrow> Inr (js_sub x y)))"










section \<open>Navigation to a hazard\<close>

text \<open>
  The target and its geometry are values of type \<^verbatim>\<open>any\<close>: the type of the geometry is
  compared as a string and the coordinates are read property by property.

  A value used as a number (\<^verbatim>\<open>ToNumber\<close>): \<^verbatim>\<open>undefined\<close> is NaN, \<^verbatim>\<open>null\<close> is 0,
  \<^verbatim>\<open>true\<close> is 1. A string, an array or an object as an operand would make \<^verbatim>\<open>+\<close> a
  concatenation and needs the conversions between numbers and their decimal notation:
  that case is left out, with the result \<open>Unmodelled\<close>, and no property below speaks of it.
\<close>

fun toNumber :: "js \<Rightarrow> error + jsnum" where
  "toNumber (JNum x) = Inr x"
| "toNumber JUndefined = Inr NaN"
| "toNumber JNull = Inr (Fin 0)"
| "toNumber (JBool b) = Inr (Fin (if b then 1 else 0))"
| "toNumber JThrowing = Inl Thrown"
| "toNumber (JStr s) = Inl Unmodelled"
| "toNumber (JArr xs) = Inl Unmodelled"
| "toNumber (JObj kvs) = Inl Unmodelled"

text \<open>The sum \<^verbatim>\<open>x + y\<close> of two numbers, rounded to binary64.\<close>

fun js_add :: "jsnum \<Rightarrow> jsnum \<Rightarrow> jsnum" where
  "js_add (Fin a) (Fin b) = round64 (a + b)"
| "js_add NaN _ = NaN"
| "js_add _ NaN = NaN"
| "js_add PInf NInf = NaN"
| "js_add NInf PInf = NaN"
| "js_add PInf _ = PInf"
| "js_add _ PInf = PInf"
| "js_add NInf _ = NInf"
| "js_add _ NInf = NInf"

text \<open>\<^verbatim>\<open>x / coords.length\<close>, rounded to binary64: the divisor is a length.\<close>

fun js_div_length :: "jsnum \<Rightarrow> nat \<Rightarrow> jsnum" where
  "js_div_length (Fin a) n =
     (if n = 0 then (if a = 0 then NaN else if 0 < a then PInf else NInf)
      else round64 (a / real n))"
| "js_div_length NaN n = NaN"
| "js_div_length PInf n = PInf"
| "js_div_length NInf n = NInf"

text \<open>\<^verbatim>\<open>Math.min\<close> and \<^verbatim>\<open>Math.max\<close> of two numbers.\<close>

definition js_min :: "jsnum \<Rightarrow> jsnum \<Rightarrow> jsnum" where
  "js_min a b = (if isNaN a \<or> isNaN b then NaN else if js_le a b then a else b)"

definition js_max :: "jsnum \<Rightarrow> jsnum \<Rightarrow> jsnum" where
  "js_max a b = (if isNaN a \<or> isNaN b then NaN else if js_le a b then b else a)"

text \<open>
  \<^verbatim>\<open>coords.reduce((sum, coord) => sum + coord[k], 0)\<close>: the loop over the elements, and
  the call of the method, which only an array has.
\<close>

fun sumCoord :: "string \<Rightarrow> jsnum \<Rightarrow> js list \<Rightarrow> error + jsnum" where
  "sumCoord k acc [] = Inr acc"
| "sumCoord k acc (coord # coords) =
     (case getProp coord k of
        Inl e \<Rightarrow> Inl e
      | Inr v \<Rightarrow>
          (case toNumber v of
             Inl e \<Rightarrow> Inl e
           | Inr y \<Rightarrow> sumCoord k (js_add acc y) coords))"

text \<open>
  Leaflet's \<^verbatim>\<open>LatLng\<close> and \<^verbatim>\<open>LatLngBounds\<close> (version 1.9):
  \<^verbatim>\<open>
  function LatLng(lat, lng, alt) {
    if (isNaN(lat) || isNaN(lng)) { throw new Error('Invalid LatLng object: ...'); }
    this.lat = +lat; this.lng = +lng; ...
  }
  function LatLngBounds(corner1, corner2) {
    if (!corner1) { return; }
    var latlngs = corner2 ? [corner1, corner2] : corner1;
    for (var i = 0, len = latlngs.length; i < len; i++) { this.extend(latlngs[i]); }
  }
  \<close>
  \<^verbatim>\<open>extend\<close> is given a pair \<^verbatim>\<open>[a0, a1]\<close> here. When \<^verbatim>\<open>typeof a0\<close> is not
  \<^verbatim>\<open>'object'\<close> the pair is made a \<^verbatim>\<open>LatLng\<close>; the first one gives both corners, a later
  one moves the south-west corner to the minima and the north-east corner to the maxima.
  When \<^verbatim>\<open>a0\<close> is \<^verbatim>\<open>null\<close> the pair is read as a list of points, none of which a
  primitive \<^verbatim>\<open>a1\<close> provides: the bounds stay as they are.
\<close>

type_synonym LatLng = "jsnum \<times> jsnum"

definition newLatLng :: "js \<Rightarrow> js \<Rightarrow> error + LatLng" where
  "newLatLng latArg lngArg =
     (case toNumber latArg of
        Inl e \<Rightarrow> Inl e
      | Inr la \<Rightarrow>
          if isNaN la then Inl InvalidLatLng
          else
            (case toNumber lngArg of
               Inl e \<Rightarrow> Inl e
             | Inr lo \<Rightarrow> if isNaN lo then Inl InvalidLatLng else Inr (la, lo)))"

record LatLngBounds =
  southWest :: "LatLng option"
  northEast :: "LatLng option"

definition extend_bounds :: "LatLngBounds \<Rightarrow> LatLng \<Rightarrow> LatLngBounds" where
  "extend_bounds b p =
     (case (southWest b, northEast b) of
        (Some sw, Some ne) \<Rightarrow>
          \<lparr>southWest = Some (js_min (fst p) (fst sw), js_min (snd p) (snd sw)),
           northEast = Some (js_max (fst p) (fst ne), js_max (snd p) (snd ne))\<rparr>
      | _ \<Rightarrow> \<lparr>southWest = Some p, northEast = Some p\<rparr>)"

fun extendAll :: "LatLngBounds \<Rightarrow> (js \<times> js) list \<Rightarrow> error + LatLngBounds" where
  "extendAll b [] = Inr b"
| "extendAll b ((a0, a1) # ps) =
     (if a0 = JNull then
        (case toNumber a1 of
           Inl e \<Rightarrow> Inl e
         | Inr _ \<Rightarrow> extendAll b ps)
      else if typeof a0 = ''object'' then Inl Unmodelled
      else
        (case newLatLng a0 a1 of
           Inl e \<Rightarrow> Inl e
         | Inr p \<Rightarrow> extendAll (extend_bounds b p) ps))"

definition newLatLngBounds :: "(js \<times> js) list \<Rightarrow> error + LatLngBounds" where
  "newLatLngBounds ps = extendAll \<lparr>southWest = None, northEast = None\<rparr> ps"

text \<open>\<^verbatim>\<open>coords.map(coord => [coord[1], coord[0]])\<close>\<close>

fun swapPairs :: "js list \<Rightarrow> error + (js \<times> js) list" where
  "swapPairs [] = Inr []"
| "swapPairs (coord # coords) =
     (case getProp coord ''1'' of
        Inl e \<Rightarrow> Inl e
      | Inr a0 \<Rightarrow>
          (case getProp coord ''0'' of
             Inl e \<Rightarrow> Inl e
           | Inr a1 \<Rightarrow>
               (case swapPairs coords of
                  Inl e \<Rightarrow> Inl e
                | Inr ps \<Rightarrow> Inr ((a0, a1) # ps))))"

text \<open>What the effect asks of the map: the arguments of \<^verbatim>\<open>flyTo\<close> or of \<^verbatim>\<open>flyToBounds\<close>.\<close>

datatype mapCall =
    FlyTo LatLng nat real
  | FlyToBounds LatLngBounds nat nat

text \<open>
  The part the Polygon and the MultiPolygon branch share, \<^verbatim>\<open>coords\<close> being the ring:
  \<^verbatim>\<open>
  const latSum = coords.reduce((sum, coord) => sum + coord[1], 0);
  const lonSum = coords.reduce((sum, coord) => sum + coord[0], 0);
  center = new LatLng(latSum / coords.length, lonSum / coords.length);
  const bounds = new LatLngBounds(coords.map(coord => [coord[1], coord[0]]));
  map.flyToBounds(bounds, { padding: [100, 100], maxZoom: 12 });
  return;
  \<close>
  \<open>ringCenter\<close> is the local \<^verbatim>\<open>center\<close> for the elements of an array \<^verbatim>\<open>coords\<close>. The
  effect returns before it uses it: all that is left of it is the exception its
  computation may raise.
\<close>

definition ringCenter :: "js list \<Rightarrow> error + LatLng" where
  "ringCenter coords =
     (case sumCoord ''1'' (Fin 0) coords of
        Inl e \<Rightarrow> Inl e
      | Inr latSum \<Rightarrow>
          (case sumCoord ''0'' (Fin 0) coords of
             Inl e \<Rightarrow> Inl e
           | Inr lonSum \<Rightarrow>
               newLatLng (JNum (js_div_length latSum (length coords)))
                         (JNum (js_div_length lonSum (length coords)))))"

definition flyToRing :: "js \<Rightarrow> error + mapCall option" where
  "flyToRing coords =
     (case coords of
        JArr xs \<Rightarrow>
          (case ringCenter xs of
             Inl e \<Rightarrow> Inl e
           | Inr center \<Rightarrow>
               (case swapPairs xs of
                  Inl e \<Rightarrow> Inl e
                | Inr ps \<Rightarrow>
                    (case newLatLngBounds ps of
                       Inl e \<Rightarrow> Inl e
                     | Inr bounds \<Rightarrow> Inr (Some (FlyToBounds bounds 100 12)))))
      | JThrowing \<Rightarrow> Inl Thrown
      | _ \<Rightarrow> Inl TypeError)"

text \<open>
  The effect of \<^verbatim>\<open>MapController\<close>:
  \<^verbatim>\<open>
  if (targetAlert && targetAlert.geometry) {
    const geom = targetAlert.geometry;
    let center; let zoom = 10;
    if (geom.type === 'Point') {
      center = new LatLng(geom.coordinates[1], geom.coordinates[0]);
    } else if (geom.type === 'Polygon' && geom.coordinates[0]) {
      const coords = geom.coordinates[0]; ...
    } else if (geom.type === 'MultiPolygon') {
      const coords = geom.coordinates[0][0]; ...
    } else { return; }
    map.flyTo(center, zoom, { duration: 1.5 });
  }
  \<close>
  The result is the call made on the map, \<open>None\<close> when the effect returns without one.
\<close>

definition MapController :: "js \<Rightarrow> error + mapCall option" where
  "MapController targetAlert =
     (if \<not> truthy targetAlert then Inr None
      else
        case getProp targetAlert ''geometry'' of
          Inl e \<Rightarrow> Inl e
        | Inr geom \<Rightarrow>
            if \<not> truthy geom then Inr None
            else
              (case getProp geom ''type'' of
                 Inl e \<Rightarrow> Inl e
               | Inr t \<Rightarrow>
                   if t = JStr ''Point'' then
                     (case getProp geom ''coordinates'' of
                        Inl e \<Rightarrow> Inl e
                      | Inr c \<Rightarrow>
                          (case getProp c ''1'' of
                             Inl e \<Rightarrow> Inl e
                           | Inr latArg \<Rightarrow>
                               (case getProp c ''0'' of
                                  Inl e \<Rightarrow> Inl e
                                | Inr lngArg \<Rightarrow>
                                    (case newLatLng latArg lngArg of
                                       Inl e \<Rightarrow> Inl e
                                     | Inr center \<Rightarrow> Inr (Some (FlyTo center 10 (3 / 2)))))))
                   else if t = JStr ''Polygon'' then
                     (case getProp geom ''coordinates'' of
                        Inl e \<Rightarrow> Inl e
                      | Inr c \<Rightarrow>
                          (case getProp c ''0'' of
                             Inl e \<Rightarrow> Inl e
                           | Inr coords \<Rightarrow> if truthy coords then flyToRing coords else Inr None))
                   else if t = JStr ''MultiPolygon'' then
                     (case getProp geom ''coordinates'' of
                        Inl e \<Rightarrow> Inl e
                      | Inr c \<Rightarrow>
                          (case getProp c ''0'' of
                             Inl e \<Rightarrow> Inl e
                           | Inr polygon \<Rightarrow>
                               (case getProp polygon ''0'' of
                                  Inl e \<Rightarrow> Inl e
                                | Inr coords \<Rightarrow> flyToRing coords)))
                   else Inr None))"

section \<open>Notions used to state the properties\<close>

text \<open>
  Following the words of the specification (section 4.2, step 2), not the source: the raw
  sequence of a payload. The payload itself when it is a sequence; else the sequence
  under \<^verbatim>\<open>balloons\<close>; else the sequence under \<^verbatim>\<open>data\<close>; else nothing.
\<close>

definition rawSequence :: "js \<Rightarrow> js list" where
  "rawSequence d =
     (case d of
        JArr xs \<Rightarrow> xs
      | JObj kvs \<Rightarrow>
          (case map_of kvs ''balloons'' of
             Some (JArr xs) \<Rightarrow> xs
           | _ \<Rightarrow> (case map_of kvs ''data'' of Some (JArr ys) \<Rightarrow> ys | _ \<Rightarrow> []))
      | _ \<Rightarrow> [])"

text \<open>
  A valid pair or triple: an array of two or three elements whose first two are finite
  numbers, a latitude in \<open>[-90, 90]\<close> and a longitude in \<open>[-180, 180]\<close>.
\<close>

fun validPair :: "js \<Rightarrow> bool" where
  "validPair (JArr (JNum (Fin a) # JNum (Fin b) # rest)) =
     (- 90 \<le> a \<and> a \<le> 90 \<and> - 180 \<le> b \<and> b \<le> 180 \<and> length rest \<le> 1)"
| "validPair _ = False"

text \<open>What the callback pushes for one element at one index, taken alone.\<close>

definition contribution :: "nat \<Rightarrow> nat \<Rightarrow> js \<Rightarrow> BalloonPosition list" where
  "contribution hourIdx idx item =
     (case forEachBody hourIdx [] item idx of Inl e \<Rightarrow> [] | Inr ps \<Rightarrow> ps)"

text \<open>
  A map is well formed when its keys are distinct and each entry sits under its own
  identifier.
\<close>

definition wellFormed :: "balloonMap \<Rightarrow> bool" where
  "wellFormed m = (distinct (map fst m) \<and> list_all (\<lambda>(k, v). id_pos v = k) m)"



text \<open>
  The loop of \<open>extractAllBalloonPositions\<close> with the extractor left open, to speak of
  an extractor whose identifiers collide across hours, and the positions it is fed: those
  of every truthy payload, hour after hour, in the order the extractor gives them.
\<close>

fun mergeWith ::
  "(js \<Rightarrow> nat \<Rightarrow> BalloonPosition list) \<Rightarrow> js list \<Rightarrow> nat \<Rightarrow> balloonMap \<Rightarrow> balloonMap" where
  "mergeWith f [] hourIdx m = m"
| "mergeWith f (d # ds) hourIdx m =
     mergeWith f ds (Suc hourIdx) (if \<not> truthy d then m else foldl mergeStep m (f d hourIdx))"

fun candidates :: "(js \<Rightarrow> nat \<Rightarrow> BalloonPosition list) \<Rightarrow> js list \<Rightarrow> nat \<Rightarrow> BalloonPosition list" where
  "candidates f [] hourIdx = []"
| "candidates f (d # ds) hourIdx =
     (if \<not> truthy d then [] else f d hourIdx) @ candidates f ds (Suc hourIdx)"

text \<open>
  A GeoJSON position with finite numbers, read as (longitude, latitude), and a feature
  with a geometry of the given type and coordinates.
\<close>

fun lonLat :: "js \<Rightarrow> (real \<times> real) option" where
  "lonLat (JArr (JNum (Fin x) # JNum (Fin y) # rest)) = Some (x, y)"
| "lonLat _ = None"

definition geoFeature :: "string \<Rightarrow> js \<Rightarrow> js" where
  "geoFeature t coordinates =
     JObj [(''type'', JStr ''Feature''),
           (''geometry'', JObj [(''type'', JStr t), (''coordinates'', coordinates)])]"

definition position :: "real \<Rightarrow> real \<Rightarrow> js" where
  "position x y = JArr [JNum (Fin x), JNum (Fin y)]"

section \<open>Facts about parsing\<close>

lemmas r64_defs = round64_def binaryExponent_def roundHalfEven_def pow2_def

lemmas parse_defs = parseFloat_def literalValue_def isStrDecimalLiteral_def
  isUnsignedLiteral_def unsignedValue_def isExponentPartOpt_def exponentValue_def
  isSignedInteger_def signedIntegerValue_def isWhiteSpace_def isDigit_def digitsVal_def
  digitVal_def pow10_def Let_def

lemma round64_not_NaN: "round64 x \<noteq> NaN"
  by (simp add: round64_def Let_def)

lemma round64_huge: "pow2 1024 \<le> x \<Longrightarrow> round64 x = PInf"
proof -
  assume a: "pow2 1024 \<le> x"
  have "(0::real) < pow2 1024" by (simp add: pow2_def)
  with a have "0 < x" "pow2 1024 \<le> \<bar>x\<bar>" by linarith+
  then show ?thesis by (simp add: round64_def Let_def)
qed

lemma pow2_1024_le: "pow2 1024 \<le> 10 ^ 999"
proof -
  have e: "(1024::nat) = 4 * 256" "(512::nat) = 2 * 256" by simp_all
  have "(2::real) ^ 1024 = (2 ^ 4) ^ 256" unfolding e by (rule power_mult)
  also have "(2::real) ^ 4 = 16" by simp
  also have "(16::real) ^ 256 \<le> 100 ^ 256" by (rule power_mono) simp_all
  also have "(100::real) = 10 ^ 2" by simp
  also have "((10::real) ^ 2) ^ 256 = 10 ^ 512" unfolding e by (rule power_mult [symmetric])
  also have "(10::real) ^ 512 \<le> 10 ^ 999" by (rule power_increasing) simp_all
  finally have "(2::real) ^ 1024 \<le> 10 ^ 999" .
  then show ?thesis by (simp add: pow2_def del: power_numeral)
qed

lemma parseFloat_12_5: "parseFloat ''12.5'' = Fin 12.5"
  by (simp add: parse_defs r64_defs)

lemma parseFloat_12_5abc: "parseFloat ''12.5abc'' = Fin 12.5"
  by (simp add: parse_defs r64_defs)

lemma parseFloat_abc: "parseFloat ''abc'' = NaN"
  by (simp add: parse_defs)

lemma parseFloat_Infinity: "parseFloat ''Infinity'' = PInf"
  by (simp add: parse_defs)

lemma parseFloat_1e999: "parseFloat ''1e999'' = PInf"
proof -
  have "parseFloat ''1e999'' = round64 (10 ^ 999)"
    by (simp add: parse_defs del: power_numeral)
  then show ?thesis by (simp only: round64_huge [OF pow2_1024_le])
qed

lemma parse_more:
  "parseFloat ''12.5em'' = Fin 12.5"
  "parseFloat ''-12.5abc'' = Fin (- 12.5)"
  "parseFloat '' 12.5abc'' = Fin 12.5"
  "parseFloat ''.5abc'' = Fin 0.5"
  "parseFloat ''1e5abc'' = Fin 100000"
  "parseFloat ''-abc'' = NaN"
  "parseFloat [] = NaN"
  "parseFloat ''0.1'' = Fin (3602879701896397 / 2 ^ 55)"
  "parseFloat ''90.00000000000000001'' = Fin 90"
  by (simp_all add: parse_defs r64_defs)


lemma parseFloat_underflow: "parseFloat ''1e-400'' = Fin 0"
  by (simp add: parse_defs r64_defs)

lemma safeNumber_string:
  "safeNumber (JStr s) = (case parseFloat s of Fin r \<Rightarrow> Some (Fin r) | _ \<Rightarrow> None)"
  by (simp add: safeNumber_def isNaN_def isFinite_def Let_def split: jsnum.splits)

lemma safeNumber_12_5: "safeNumber (JStr ''12.5'') = Some (Fin 12.5)"
  by (simp add: safeNumber_string parseFloat_12_5)

lemma safeNumber_12_5abc: "safeNumber (JStr ''12.5abc'') = Some (Fin 12.5)"
  by (simp add: safeNumber_string parseFloat_12_5abc)

lemma safeNumber_abc: "safeNumber (JStr ''abc'') = None"
  by (simp add: safeNumber_string parseFloat_abc)

lemma safeNumber_Infinity: "safeNumber (JStr ''Infinity'') = None"
  by (simp add: safeNumber_string parseFloat_Infinity)

lemma literal_head:
  "isStrDecimalLiteral (c # r) \<Longrightarrow> \<not> isWhiteSpace c"
proof -
  assume a: "isStrDecimalLiteral (c # r)"
  have sign: "\<not> isWhiteSpace CHR ''+''" "\<not> isWhiteSpace CHR ''-''" "\<not> isWhiteSpace CHR ''.''"
    "\<not> isWhiteSpace CHR ''I''"
    by (simp_all add: isWhiteSpace_def)
  have digit: "isDigit c \<Longrightarrow> \<not> isWhiteSpace c"
    by (auto simp: isDigit_def isWhiteSpace_def)
  show ?thesis
  proof (cases "c = CHR ''+'' \<or> c = CHR ''-'' \<or> c = CHR ''.'' \<or> c = CHR ''I'' \<or> isDigit c")
    case True
    then show ?thesis using sign digit by auto
  next
    case False
    then have "\<not> isUnsignedLiteral (c # r)"
      by (auto simp: isUnsignedLiteral_def Let_def)
    with a False show ?thesis by (simp add: isStrDecimalLiteral_def)
  qed
qed

lemma literal_not_empty: "\<not> isStrDecimalLiteral []"
  by (simp add: isStrDecimalLiteral_def)

lemma trim_before_literal:
  assumes "list_all isWhiteSpace ws" "isStrDecimalLiteral lit"
  shows "dropWhile isWhiteSpace (ws @ lit @ rest) = lit @ rest"
proof -
  obtain c r where l: "lit = c # r" using assms(2) literal_not_empty by (cases lit) auto
  then have "\<not> isWhiteSpace c" using assms(2) literal_head by simp
  then show ?thesis using assms(1) by (simp add: l dropWhile_append2 list_all_iff)
qed

lemma longestPrefix_found:
  "isStrDecimalLiteral (take m s) \<Longrightarrow> 0 < m \<Longrightarrow> m \<le> n \<Longrightarrow>
   (\<forall>j. m < j \<and> j \<le> n \<longrightarrow> \<not> isStrDecimalLiteral (take j s)) \<Longrightarrow>
   longestPrefix n s = Some (take m s)"
proof (induction n)
  case 0
  then show ?case by simp
next
  case (Suc n)
  show ?case
  proof (cases "m = Suc n")
    case True
    then show ?thesis using Suc.prems(1) by simp
  next
    case False
    then have "m \<le> n" "m < Suc n" using Suc.prems(3) by simp_all
    then have "\<not> isStrDecimalLiteral (take (Suc n) s)" using Suc.prems(4) by simp
    moreover have "longestPrefix n s = Some (take m s)"
      using Suc.prems \<open>m \<le> n\<close> by (intro Suc.IH) simp_all
    ultimately show ?thesis by simp
  qed
qed

lemma longestPrefix_none:
  "(\<forall>j. 0 < j \<and> j \<le> n \<longrightarrow> \<not> isStrDecimalLiteral (take j s)) \<Longrightarrow> longestPrefix n s = None"
  by (induction n) simp_all

lemma parseFloat_prefix:
  assumes ws: "list_all isWhiteSpace ws" and lit: "isStrDecimalLiteral lit"
    and longest: "\<forall>k. 0 < k \<and> k \<le> length rest \<longrightarrow> \<not> isStrDecimalLiteral (lit @ take k rest)"
  shows "parseFloat (ws @ lit @ rest) = literalValue lit"
proof -
  have l0: "0 < length lit" using lit literal_not_empty by (cases lit) auto
  have "\<forall>j. length lit < j \<and> j \<le> length (lit @ rest) \<longrightarrow>
          \<not> isStrDecimalLiteral (take j (lit @ rest))"
  proof (intro allI impI)
    fix j assume j: "length lit < j \<and> j \<le> length (lit @ rest)"
    then have "0 < j - length lit \<and> j - length lit \<le> length rest" by auto
    with longest have "\<not> isStrDecimalLiteral (lit @ take (j - length lit) rest)" by blast
    moreover have "take j (lit @ rest) = lit @ take (j - length lit) rest"
      using j by simp
    ultimately show "\<not> isStrDecimalLiteral (take j (lit @ rest))" by simp
  qed
  then have "longestPrefix (length (lit @ rest)) (lit @ rest) = Some (take (length lit) (lit @ rest))"
    using lit l0 by (intro longestPrefix_found) simp_all
  then show ?thesis
    by (simp add: parseFloat_def trim_before_literal [OF ws lit])
qed

lemma parseFloat_no_prefix:
  assumes "\<forall>k. \<not> isStrDecimalLiteral (take k (dropWhile isWhiteSpace s))"
  shows "parseFloat s = NaN"
  using assms by (simp add: parseFloat_def longestPrefix_none)

section \<open>Numeric coercion: the contract\<close>

text \<open>
  Claim C3, as amended. \<open>safeNumber\<close> returns, for every value, a number that is not NaN
  or nothing (\<open>None\<close>, the source's \<^verbatim>\<open>null\<close>). A finite number comes back as it is and NaN
  gives nothing. A string gives the value of \<^verbatim>\<open>parseFloat\<close> when that is finite and
  nothing otherwise: \<^verbatim>\<open>"12.5"\<close> gives 12.5, \<^verbatim>\<open>"abc"\<close> and \<^verbatim>\<open>"Infinity"\<close> give nothing.
  Objects, arrays, booleans, \<^verbatim>\<open>null\<close> and \<^verbatim>\<open>undefined\<close> give nothing. The function
  reads no property and calls no method of its argument, so nothing can throw: the
  model is a total function with no error result.
\<close>

theorem safeNumber_contract:
  "(safeNumber v = None \<or> (\<exists>x. safeNumber v = Some x \<and> x \<noteq> NaN))
   \<and> safeNumber (JNum (Fin r)) = Some (Fin r)
   \<and> safeNumber (JNum NaN) = None
   \<and> safeNumber (JStr s) = (case parseFloat s of Fin q \<Rightarrow> Some (Fin q) | _ \<Rightarrow> None)
   \<and> safeNumber (JStr ''12.5'') = Some (Fin 12.5)
   \<and> safeNumber (JStr ''abc'') = None
   \<and> safeNumber (JStr ''Infinity'') = None
   \<and> safeNumber (JObj kvs) = None
   \<and> safeNumber (JArr xs) = None
   \<and> safeNumber (JBool b) = None
   \<and> safeNumber JNull = None
   \<and> safeNumber JUndefined = None
   \<and> safeNumber JThrowing = None"
proof -
  have total: "safeNumber v = None \<or> (\<exists>x. safeNumber v = Some x \<and> x \<noteq> NaN)"
    by (cases v) (auto simp: safeNumber_def isNaN_def isFinite_def Let_def split: jsnum.splits)
  have others: "safeNumber (JNum (Fin r)) = Some (Fin r)" "safeNumber (JNum NaN) = None"
    "safeNumber (JObj kvs) = None" "safeNumber (JArr xs) = None" "safeNumber (JBool b) = None"
    "safeNumber JNull = None" "safeNumber JUndefined = None" "safeNumber JThrowing = None"
    by (simp_all add: safeNumber_def isNaN_def)
  show ?thesis
    using total others safeNumber_string [of s] safeNumber_12_5 safeNumber_abc safeNumber_Infinity
    by simp
qed

theorem safeNumber_contract_witness:
  "safeNumber (JNum (Fin 7)) = Some (Fin 7)
   \<and> safeNumber (JStr ''12.5'') = Some (Fin 12.5)
   \<and> safeNumber (JArr [JNum (Fin 7)]) = None"
  using safeNumber_contract [of "JNum (Fin 7)" 7 "''12.5''" "[]" "[JNum (Fin 7)]" True]
  by blast

text \<open>
  The claim as first stated, a finite number or nothing for every value, fails on the
  number Infinity (what \<^verbatim>\<open>JSON.parse\<close> makes of \<^verbatim>\<open>1e999\<close>): only the string branch tests
  \<^verbatim>\<open>isFinite\<close>.
\<close>

theorem safeNumber_infinity_counterexample:
  "safeNumber (JNum PInf) = Some PInf \<and> \<not> isFinite PInf"
  by (simp add: safeNumber_def isNaN_def isFinite_def)

section \<open>Numeric coercion: strings with a numeric prefix\<close>

text \<open>
  Claim C10, as amended. After the leading white space, a string that begins with a
  decimal literal (an optional sign, then digits with an optional fraction and an
  optional exponent, or a fraction alone, or \<^verbatim>\<open>Infinity\<close>) is coerced to the binary64
  value of the longest such prefix when that value is finite, whatever follows the
  prefix: the result is the one for the prefix alone. So \<^verbatim>\<open>"12.5abc"\<close> and
  \<^verbatim>\<open>"12.5em"\<close> give 12.5, \<^verbatim>\<open>"-12.5abc"\<close> gives -12.5, \<^verbatim>\<open>" 12.5abc"\<close> gives 12.5,
  \<^verbatim>\<open>".5abc"\<close> gives 0.5, \<^verbatim>\<open>"1e5abc"\<close> gives 100000 and \<^verbatim>\<open>"1e-400"\<close> gives 0. A
  string is coerced to nothing exactly when it has no such prefix (\<^verbatim>\<open>"abc"\<close>,
  \<^verbatim>\<open>"-abc"\<close>, the empty string) or when the value of its longest prefix is not finite
  (\<^verbatim>\<open>"Infinity"\<close>, and \<^verbatim>\<open>"1e999"\<close>, which is too large for binary64).
\<close>

theorem safeNumber_numeric_prefix:
  "(list_all isWhiteSpace ws \<and> isStrDecimalLiteral lit
      \<and> (\<forall>k. 0 < k \<and> k \<le> length rest \<longrightarrow> \<not> isStrDecimalLiteral (lit @ take k rest))
    \<longrightarrow> safeNumber (JStr (ws @ lit @ rest))
          = (case literalValue lit of Fin r \<Rightarrow> Some (Fin r) | _ \<Rightarrow> None)
        \<and> safeNumber (JStr (ws @ lit @ rest)) = safeNumber (JStr lit))
   \<and> ((\<forall>k. \<not> isStrDecimalLiteral (take k (dropWhile isWhiteSpace s)))
    \<longrightarrow> safeNumber (JStr s) = None)
   \<and> (safeNumber (JStr s) = None) =
       (case longestPrefix (length (dropWhile isWhiteSpace s)) (dropWhile isWhiteSpace s) of
          None \<Rightarrow> True
        | Some l \<Rightarrow> \<not> isFinite (literalValue l))
   \<and> safeNumber (JStr ''12.5abc'') = Some (Fin 12.5)
   \<and> safeNumber (JStr ''12.5em'') = Some (Fin 12.5)
   \<and> safeNumber (JStr ''-12.5abc'') = Some (Fin (- 12.5))
   \<and> safeNumber (JStr '' 12.5abc'') = Some (Fin 12.5)
   \<and> safeNumber (JStr ''.5abc'') = Some (Fin 0.5)
   \<and> safeNumber (JStr ''1e5abc'') = Some (Fin 100000)
   \<and> safeNumber (JStr ''1e-400'') = Some (Fin 0)
   \<and> safeNumber (JStr ''abc'') = None
   \<and> safeNumber (JStr ''-abc'') = None
   \<and> safeNumber (JStr []) = None
   \<and> safeNumber (JStr ''Infinity'') = None
   \<and> safeNumber (JStr ''1e999'') = None"
proof -
  have a: "list_all isWhiteSpace ws \<and> isStrDecimalLiteral lit
      \<and> (\<forall>k. 0 < k \<and> k \<le> length rest \<longrightarrow> \<not> isStrDecimalLiteral (lit @ take k rest))
    \<longrightarrow> safeNumber (JStr (ws @ lit @ rest))
          = (case literalValue lit of Fin r \<Rightarrow> Some (Fin r) | _ \<Rightarrow> None)
        \<and> safeNumber (JStr (ws @ lit @ rest)) = safeNumber (JStr lit)"
  proof (intro impI)
    assume h: "list_all isWhiteSpace ws \<and> isStrDecimalLiteral lit
      \<and> (\<forall>k. 0 < k \<and> k \<le> length rest \<longrightarrow> \<not> isStrDecimalLiteral (lit @ take k rest))"
    then have 1: "parseFloat (ws @ lit @ rest) = literalValue lit"
      by (intro parseFloat_prefix) simp_all
    from h have "isStrDecimalLiteral lit" by simp
    from parseFloat_prefix [of "[]" lit "[]", OF _ this]
    have 2: "parseFloat lit = literalValue lit" by simp
    show "safeNumber (JStr (ws @ lit @ rest))
          = (case literalValue lit of Fin r \<Rightarrow> Some (Fin r) | _ \<Rightarrow> None)
        \<and> safeNumber (JStr (ws @ lit @ rest)) = safeNumber (JStr lit)"
      by (simp add: safeNumber_string 1 2)
  qed
  have b: "(\<forall>k. \<not> isStrDecimalLiteral (take k (dropWhile isWhiteSpace s)))
    \<longrightarrow> safeNumber (JStr s) = None"
    by (simp add: safeNumber_string parseFloat_no_prefix)
  have c: "(safeNumber (JStr s) = None) =
       (case longestPrefix (length (dropWhile isWhiteSpace s)) (dropWhile isWhiteSpace s) of
          None \<Rightarrow> True
        | Some l \<Rightarrow> \<not> isFinite (literalValue l))"
    by (simp add: safeNumber_string parseFloat_def isFinite_def Let_def
        split: option.splits jsnum.splits)
  have d: "safeNumber (JStr ''12.5abc'') = Some (Fin 12.5)"
    "safeNumber (JStr ''12.5em'') = Some (Fin 12.5)"
    "safeNumber (JStr ''-12.5abc'') = Some (Fin (- 12.5))"
    "safeNumber (JStr '' 12.5abc'') = Some (Fin 12.5)"
    "safeNumber (JStr ''.5abc'') = Some (Fin 0.5)"
    "safeNumber (JStr ''1e5abc'') = Some (Fin 100000)"
    "safeNumber (JStr ''1e-400'') = Some (Fin 0)"
    "safeNumber (JStr ''abc'') = None"
    "safeNumber (JStr ''-abc'') = None"
    "safeNumber (JStr []) = None"
    "safeNumber (JStr ''Infinity'') = None"
    "safeNumber (JStr ''1e999'') = None"
    by (simp_all only: safeNumber_string parseFloat_12_5abc parse_more parseFloat_underflow
        parseFloat_abc parseFloat_Infinity parseFloat_1e999 jsnum.case)
  from a b c d show ?thesis by blast
qed

theorem safeNumber_numeric_prefix_witness:
  "safeNumber (JStr ('' '' @ ''-12.5'' @ ''em'')) = Some (Fin (- (125 / 10)))
   \<and> safeNumber (JStr ('' '' @ ''-12.5'' @ ''em'')) = safeNumber (JStr ''-12.5'')
   \<and> safeNumber (JStr ''#1'') = None"
proof -
  have k: "\<And>k::nat. 0 < k \<and> k \<le> length ''em'' \<Longrightarrow> k = 1 \<or> k = 2" by auto
  have h1: "list_all isWhiteSpace '' ''" "isStrDecimalLiteral ''-12.5''"
    by (simp_all add: parse_defs)
  have h2: "\<forall>k. 0 < k \<and> k \<le> length ''em'' \<longrightarrow> \<not> isStrDecimalLiteral (''-12.5'' @ take k ''em'')"
  proof (intro allI impI)
    fix k :: nat assume "0 < k \<and> k \<le> length ''em''"
    from k [OF this] show "\<not> isStrDecimalLiteral (''-12.5'' @ take k ''em'')"
      by (auto simp: parse_defs)
  qed
  have h3: "\<forall>k. \<not> isStrDecimalLiteral (take k (dropWhile isWhiteSpace ''#1''))"
  proof
    fix k :: nat
    have t: "dropWhile isWhiteSpace ''#1'' = ''#1''" by (simp add: isWhiteSpace_def)
    have "k = 0 \<or> k = 1 \<or> 2 \<le> k" by auto
    then show "\<not> isStrDecimalLiteral (take k (dropWhile isWhiteSpace ''#1''))"
      unfolding t by (auto simp: parse_defs)
  qed
  have v: "literalValue ''-12.5'' = Fin (- (125 / 10))"
    by (simp add: parse_defs r64_defs)
  note t = safeNumber_numeric_prefix [of "'' ''" "''-12.5''" "''em''" "''#1''"]
  from t h1 h2 have
    "safeNumber (JStr ('' '' @ ''-12.5'' @ ''em''))
       = (case literalValue ''-12.5'' of Fin r \<Rightarrow> Some (Fin r) | _ \<Rightarrow> None)"
    "safeNumber (JStr ('' '' @ ''-12.5'' @ ''em'')) = safeNumber (JStr ''-12.5'')"
    by blast+
  moreover from t h3 have "safeNumber (JStr ''#1'') = None" by blast
  ultimately show ?thesis by (simp only: v jsnum.case)
qed

text \<open>
  The claim as first stated, that only a string without a numeric prefix is coerced to
  nothing, fails on \<^verbatim>\<open>"1e999"\<close>: the whole string is a decimal literal, \<^verbatim>\<open>parseFloat\<close>
  reads it and returns Infinity, and the test of \<^verbatim>\<open>isFinite\<close> turns that into nothing.
\<close>

theorem safeNumber_prefix_counterexample:
  "isStrDecimalLiteral ''1e999'' \<and> parseFloat ''1e999'' = PInf
   \<and> safeNumber (JStr ''1e999'') = None"
  by (simp add: safeNumber_string parseFloat_1e999) (simp add: parse_defs)

section \<open>Facts about extraction\<close>

lemma getProp_plain:
  "v \<noteq> JThrowing \<Longrightarrow> \<not> nullish v \<Longrightarrow> \<exists>w. getProp v k = Inr w"
  by (cases v) (simp_all add: nullish_def)

lemma optChain_plain: "v \<noteq> JThrowing \<Longrightarrow> \<exists>w. optChain v k = Inr w"
  using getProp_plain [of v k] by (auto simp: optChain_def)

lemma firstPresent_plain: "item \<noteq> JThrowing \<Longrightarrow> \<exists>w. firstPresent item ks = Inr w"
proof (induction ks)
  case Nil
  then show ?case by simp
next
  case (Cons k ks)
  obtain w where "optChain item k = Inr w" using optChain_plain [OF Cons.prems] by blast
  then show ?case using Cons by auto
qed

lemma objectCoords_plain: "item \<noteq> JThrowing \<Longrightarrow> \<exists>c. objectCoords item = Inr c"
proof -
  assume a: "item \<noteq> JThrowing"
  obtain x where x: "firstPresent item [''lat'', ''latitude'', ''y'', ''0''] = Inr x"
    using firstPresent_plain [OF a] by blast
  obtain y where y: "firstPresent item [''lon'', ''lng'', ''longitude'', ''1''] = Inr y"
    using firstPresent_plain [OF a] by blast
  obtain z where z: "firstPresent item [''alt'', ''altitude'', ''z'', ''2''] = Inr z"
    using firstPresent_plain [OF a] by blast
  show ?thesis unfolding objectCoords_def by (simp add: x y z del: firstPresent.simps)
qed

lemma readCoords_plain: "item \<noteq> JThrowing \<Longrightarrow> \<exists>c. readCoords item = Inr c"
  using objectCoords_plain [of item]
  by (cases item) (auto simp: readCoords_def)

lemma readCoords_throwing: "readCoords JThrowing = Inl Thrown"
  by (simp add: readCoords_def objectCoords_def optChain_def nullish_def)

lemma forEachBody_acc:
  "forEachBody h acc item idx =
     (case forEachBody h [] item idx of Inl e \<Rightarrow> Inl e | Inr ps \<Rightarrow> Inr (acc @ ps))"
  by (simp add: forEachBody_def split: sum.splits prod.splits option.splits)

lemma forEachBody_plain:
  "item \<noteq> JThrowing \<Longrightarrow> forEachBody h acc item idx = Inr (acc @ contribution h idx item)"
proof -
  assume "item \<noteq> JThrowing"
  then obtain c where c: "readCoords item = Inr c" using readCoords_plain by blast
  have "\<exists>ps. forEachBody h [] item idx = Inr ps"
    unfolding forEachBody_def c by (auto split: prod.splits option.splits)
  then obtain ps where "forEachBody h [] item idx = Inr ps" by blast
  then show ?thesis
    by (subst forEachBody_acc) (simp add: contribution_def)
qed

lemma forEachBody_throwing: "forEachBody h acc JThrowing idx = Inl Thrown"
  by (simp add: forEachBody_def readCoords_throwing)

lemma forEach_plain:
  "JThrowing \<notin> set items \<Longrightarrow>
   forEach h items idx acc =
     (acc @ concat (map (\<lambda>i. contribution h (idx + i) (items ! i)) [0..<length items]), None)"
proof (induction items arbitrary: idx acc)
  case Nil
  then show ?case by simp
next
  case (Cons item items)
  then have a: "item \<noteq> JThrowing" "JThrowing \<notin> set items" by auto
  show ?case
    by (simp add: forEachBody_plain [OF a(1)] Cons.IH [OF a(2)] map_upt_Suc del: upt_Suc)
qed

lemma forEach_stops:
  "fst (forEach h (xs @ JThrowing # ys) idx acc) = fst (forEach h xs idx acc)
   \<and> snd (forEach h (xs @ JThrowing # ys) idx acc) \<noteq> None"
proof (induction xs arbitrary: idx acc)
  case Nil
  then show ?case by (simp add: forEachBody_throwing)
next
  case (Cons x xs)
  then show ?case by (cases "forEachBody h acc x idx") simp_all
qed

lemma extract_array:
  "extractBalloonPositions (JArr items) h = fst (forEach h items 0 [])"
  by (simp add: extractBalloonPositions_def tryBlock_def)

lemma extract_rawSequence:
  "extractBalloonPositions d h = fst (forEach h (rawSequence d) 0 [])"
proof (cases d)
  case (JObj kvs)
  show ?thesis
  proof (cases "map_of kvs ''balloons''")
    case None
    then show ?thesis
      by (cases "map_of kvs ''data''"; cases "the (map_of kvs ''data'')")
         (simp_all add: JObj extractBalloonPositions_def tryBlock_def rawSequence_def)
  next
    case (Some b)
    then show ?thesis
      by (cases b; cases "map_of kvs ''data''"; cases "the (map_of kvs ''data'')")
         (simp_all add: JObj extractBalloonPositions_def tryBlock_def rawSequence_def)
  qed
qed (simp_all add: extractBalloonPositions_def tryBlock_def rawSequence_def)

lemma inRange_finite:
  "inRange la lo \<Longrightarrow>
   \<exists>a b. la = Fin a \<and> lo = Fin b \<and> - 90 \<le> a \<and> a \<le> 90 \<and> - 180 \<le> b \<and> b \<le> 180"
  by (cases la; cases lo) (simp_all add: inRange_def)

lemma contribution_cases:
  "contribution h idx item = [] \<or>
   (\<exists>la lo alt. readCoords item = Inr (Some la, Some lo, alt) \<and> inRange la lo \<and>
      contribution h idx item =
        [\<lparr>id_pos = balloonId h idx, lat = la, lon = lo, altitude = alt,
          timestamp = None, hourIndex = Some h\<rparr>])"
  by (auto simp: contribution_def forEachBody_def split: sum.splits prod.splits option.splits)

lemma forEachBody_result:
  "forEachBody h acc item idx = Inr ps \<Longrightarrow> ps = acc @ contribution h idx item"
  by (subst (asm) forEachBody_acc) (auto simp: contribution_def split: sum.splits)

lemma forEach_sound:
  "p \<in> set (fst (forEach h items idx acc)) \<Longrightarrow>
   p \<in> set acc \<or> (\<exists>i<length items. p \<in> set (contribution h (idx + i) (items ! i)))"
proof (induction items arbitrary: idx acc)
  case Nil
  then show ?case by simp
next
  case (Cons item items)
  show ?case
  proof (cases "forEachBody h acc item idx")
    case (Inl e)
    then show ?thesis using Cons.prems by simp
  next
    case (Inr ps)
    then have ps: "ps = acc @ contribution h idx item" by (rule forEachBody_result)
    from Cons.prems Inr have "p \<in> set (fst (forEach h items (Suc idx) ps))" by simp
    from Cons.IH [OF this]
    consider "p \<in> set acc" | "p \<in> set (contribution h idx item)"
      | i where "i < length items" "p \<in> set (contribution h (Suc idx + i) (items ! i))"
      using ps by auto
    then show ?thesis
    proof cases
      case 1
      then show ?thesis by simp
    next
      case 2
      then have "0 < length (item # items) \<and> p \<in> set (contribution h (idx + 0) ((item # items) ! 0))"
        by simp
      then show ?thesis by blast
    next
      case 3
      then have "Suc i < length (item # items) \<and>
                 p \<in> set (contribution h (idx + Suc i) ((item # items) ! Suc i))"
        by simp
      then show ?thesis by blast
    qed
  qed
qed

lemma extract_sound:
  assumes "p \<in> set (extractBalloonPositions d h)"
  shows "\<exists>i<length (rawSequence d). \<exists>la lo alt.
           readCoords (rawSequence d ! i) = Inr (Some la, Some lo, alt) \<and> inRange la lo \<and>
           p = \<lparr>id_pos = balloonId h i, lat = la, lon = lo, altitude = alt,
                timestamp = None, hourIndex = Some h\<rparr>"
proof -
  from assms have "p \<in> set (fst (forEach h (rawSequence d) 0 []))"
    by (simp add: extract_rawSequence)
  from forEach_sound [OF this]
  obtain i where i: "i < length (rawSequence d)" "p \<in> set (contribution h i (rawSequence d ! i))"
    by auto
  with contribution_cases [of h i "rawSequence d ! i"] show ?thesis by auto
qed

lemma balloonId_3_0: "balloonId 3 0 = ''balloon-3-0''"
  by code_simp

lemma balloonId_3_1: "balloonId 3 1 = ''balloon-3-1''"
  by code_simp

lemma contribution_pair:
  "contribution h idx (JArr [JNum (Fin a), JNum (Fin b)]) =
     (if - 90 \<le> a \<and> a \<le> 90 \<and> - 180 \<le> b \<and> b \<le> 180
      then [\<lparr>id_pos = balloonId h idx, lat = Fin a, lon = Fin b, altitude = None,
             timestamp = None, hourIndex = Some h\<rparr>]
      else [])"
  by (simp add: contribution_def forEachBody_def readCoords_def safeNumber_def isNaN_def
      inRange_def)

lemma contribution_triple:
  "contribution h idx (JArr [JNum (Fin a), JNum (Fin b), c]) =
     (if - 90 \<le> a \<and> a \<le> 90 \<and> - 180 \<le> b \<and> b \<le> 180
      then [\<lparr>id_pos = balloonId h idx, lat = Fin a, lon = Fin b, altitude = safeNumber c,
             timestamp = None, hourIndex = Some h\<rparr>]
      else [])"
  by (simp add: contribution_def forEachBody_def readCoords_def safeNumber_def isNaN_def
      inRange_def)

lemma extract_singleton:
  "item \<noteq> JThrowing \<Longrightarrow> extractBalloonPositions (JArr [item]) h = contribution h 0 item"
  by (simp add: extract_array forEachBody_plain)

section \<open>Extraction: coordinates in range\<close>

text \<open>
  Claim C4. Every position that \<open>extractBalloonPositions\<close> returns, for every payload
  and hour index, has a finite latitude in \<open>[-90, 90]\<close> and a finite longitude in
  \<open>[-180, 180]\<close>. Each position of the output for an array comes from an element of
  the array whose two coordinates were both read as numbers in range, and carries them.
  The bounds are inclusive: \<^verbatim>\<open>[90, 180]\<close> is kept and \<^verbatim>\<open>[91, 0]\<close> is dropped. An
  element with coordinates in range is kept whatever its third entry is: the altitude of
  the position is what \<open>safeNumber\<close> makes of it, nothing when the coercion fails.
\<close>

theorem extract_positions_in_range:
  "(\<forall>p \<in> set (extractBalloonPositions d h).
      \<exists>a b. lat p = Fin a \<and> lon p = Fin b \<and> - 90 \<le> a \<and> a \<le> 90 \<and> - 180 \<le> b \<and> b \<le> 180)
   \<and> (\<forall>p \<in> set (extractBalloonPositions (JArr items) h).
        \<exists>i<length items.
          readCoords (items ! i) = Inr (Some (lat p), Some (lon p), altitude p)
          \<and> inRange (lat p) (lon p) \<and> id_pos p = balloonId h i)
   \<and> extractBalloonPositions (JArr [JArr [JNum (Fin 90), JNum (Fin 180)]]) h =
        [\<lparr>id_pos = balloonId h 0, lat = Fin 90, lon = Fin 180, altitude = None,
          timestamp = None, hourIndex = Some h\<rparr>]
   \<and> extractBalloonPositions (JArr [JArr [JNum (Fin 91), JNum (Fin 0)]]) h = []
   \<and> (- 90 \<le> a \<and> a \<le> 90 \<and> - 180 \<le> b \<and> b \<le> 180 \<longrightarrow>
        extractBalloonPositions (JArr [JArr [JNum (Fin a), JNum (Fin b), c]]) h =
          [\<lparr>id_pos = balloonId h 0, lat = Fin a, lon = Fin b, altitude = safeNumber c,
            timestamp = None, hourIndex = Some h\<rparr>])"
proof (intro conjI ballI impI)
  fix p assume "p \<in> set (extractBalloonPositions d h)"
  from extract_sound [OF this] obtain la lo where "inRange la lo" "lat p = la" "lon p = lo"
    by auto
  then show "\<exists>a b. lat p = Fin a \<and> lon p = Fin b \<and> - 90 \<le> a \<and> a \<le> 90 \<and> - 180 \<le> b \<and> b \<le> 180"
    using inRange_finite by blast
next
  fix p assume "p \<in> set (extractBalloonPositions (JArr items) h)"
  from extract_sound [OF this]
  show "\<exists>i<length items.
          readCoords (items ! i) = Inr (Some (lat p), Some (lon p), altitude p)
          \<and> inRange (lat p) (lon p) \<and> id_pos p = balloonId h i"
    by (auto simp: rawSequence_def)
next
  show "extractBalloonPositions (JArr [JArr [JNum (Fin 90), JNum (Fin 180)]]) h =
        [\<lparr>id_pos = balloonId h 0, lat = Fin 90, lon = Fin 180, altitude = None,
          timestamp = None, hourIndex = Some h\<rparr>]"
    by (simp add: extract_singleton contribution_pair)
  show "extractBalloonPositions (JArr [JArr [JNum (Fin 91), JNum (Fin 0)]]) h = []"
    by (simp add: extract_singleton contribution_pair)
next
  assume "- 90 \<le> a \<and> a \<le> 90 \<and> - 180 \<le> b \<and> b \<le> 180"
  then show "extractBalloonPositions (JArr [JArr [JNum (Fin a), JNum (Fin b), c]]) h =
          [\<lparr>id_pos = balloonId h 0, lat = Fin a, lon = Fin b, altitude = safeNumber c,
            timestamp = None, hourIndex = Some h\<rparr>]"
    by (simp add: extract_singleton contribution_triple)
qed

theorem extract_positions_in_range_witness:
  "extractBalloonPositions (JArr [JArr [JNum (Fin 90), JNum (Fin 180)]]) 3 =
     [\<lparr>id_pos = ''balloon-3-0'', lat = Fin 90, lon = Fin 180, altitude = None,
       timestamp = None, hourIndex = Some 3\<rparr>]
   \<and> (\<exists>a b. lat (hd (extractBalloonPositions (JArr [JArr [JNum (Fin 90), JNum (Fin 180)]]) 3)) = Fin a
          \<and> lon (hd (extractBalloonPositions (JArr [JArr [JNum (Fin 90), JNum (Fin 180)]]) 3)) = Fin b
          \<and> - 90 \<le> a \<and> a \<le> 90 \<and> - 180 \<le> b \<and> b \<le> 180)
   \<and> extractBalloonPositions (JArr [JArr [JNum (Fin 10), JNum (Fin 20), JStr ''x'']]) 3 =
     [\<lparr>id_pos = ''balloon-3-0'', lat = Fin 10, lon = Fin 20, altitude = None,
       timestamp = None, hourIndex = Some 3\<rparr>]"
proof -
  have x: "safeNumber (JStr ''x'') = None"
    by (simp add: safeNumber_def parse_defs isNaN_def isFinite_def)
  note t = extract_positions_in_range
    [of "JArr [JArr [JNum (Fin 90), JNum (Fin 180)]]" 3 "[]" 10 20 "JStr ''x''"]
  from t have e: "extractBalloonPositions (JArr [JArr [JNum (Fin 90), JNum (Fin 180)]]) 3 =
     [\<lparr>id_pos = ''balloon-3-0'', lat = Fin 90, lon = Fin 180, altitude = None,
       timestamp = None, hourIndex = Some 3\<rparr>]"
    by (simp add: balloonId_3_0)
  from t have "\<forall>p \<in> set (extractBalloonPositions (JArr [JArr [JNum (Fin 90), JNum (Fin 180)]]) 3).
      \<exists>a b. lat p = Fin a \<and> lon p = Fin b \<and> - 90 \<le> a \<and> a \<le> 90 \<and> - 180 \<le> b \<and> b \<le> 180"
    by blast
  then have r: "\<exists>a b. lat (hd (extractBalloonPositions (JArr [JArr [JNum (Fin 90), JNum (Fin 180)]]) 3)) = Fin a
          \<and> lon (hd (extractBalloonPositions (JArr [JArr [JNum (Fin 90), JNum (Fin 180)]]) 3)) = Fin b
          \<and> - 90 \<le> a \<and> a \<le> 90 \<and> - 180 \<le> b \<and> b \<le> 180"
    unfolding e by simp
  from t have "extractBalloonPositions (JArr [JArr [JNum (Fin 10), JNum (Fin 20), JStr ''x'']]) 3 =
     [\<lparr>id_pos = ''balloon-3-0'', lat = Fin 10, lon = Fin 20, altitude = None,
       timestamp = None, hourIndex = Some 3\<rparr>]"
    by (simp add: balloonId_3_0 x)
  with e r show ?thesis by blast
qed

section \<open>Facts about valid pairs\<close>

lemma validPair_shape:
  "validPair item \<Longrightarrow>
   \<exists>a b rest. item = JArr (JNum (Fin a) # JNum (Fin b) # rest) \<and> length rest \<le> 1 \<and>
     - 90 \<le> a \<and> a \<le> 90 \<and> - 180 \<le> b \<and> b \<le> 180"
  by (erule validPair.elims) auto

lemma contribution_validPair:
  assumes "validPair item"
  shows "\<exists>p. contribution h idx item = [p] \<and> id_pos p = balloonId h idx \<and> hourIndex p = Some h
           \<and> (\<exists>rest. item = JArr (JNum (lat p) # JNum (lon p) # rest))"
proof -
  from validPair_shape [OF assms] obtain a b rest where
    s: "item = JArr (JNum (Fin a) # JNum (Fin b) # rest)" "length rest \<le> 1"
       "- 90 \<le> a" "a \<le> 90" "- 180 \<le> b" "b \<le> 180"
    by blast
  show ?thesis
  proof (cases rest)
    case Nil
    then show ?thesis using s by (simp add: contribution_pair)
  next
    case (Cons c cs)
    then have "rest = [c]" using s(2) by simp
    then show ?thesis using s by (simp add: contribution_triple)
  qed
qed

lemma validPair_plain: "validPair item \<Longrightarrow> item \<noteq> JThrowing"
  by auto

lemma concat_singletons:
  "(\<forall>i<n. length (f i) = 1) \<Longrightarrow>
   length (concat (map f [0..<n])) = n \<and> (\<forall>i<n. concat (map f [0..<n]) ! i = hd (f i))"
proof (induction n)
  case 0
  then show ?case by simp
next
  case (Suc n)
  then have ih: "length (concat (map f [0..<n])) = n"
    "\<forall>i<n. concat (map f [0..<n]) ! i = hd (f i)" by simp_all
  from Suc.prems obtain x where x: "f n = [x]"
    by (cases "f n") (auto simp: length_Suc_conv dest!: spec [of _ n])
  show ?case
  proof (intro conjI allI impI)
    show "length (concat (map f [0..<Suc n])) = Suc n" by (simp add: ih x)
  next
    fix i assume "i < Suc n"
    then show "concat (map f [0..<Suc n]) ! i = hd (f i)"
      by (cases "i = n") (simp_all add: ih x nth_append)
  qed
qed

section \<open>Extraction: one position for each valid element\<close>

text \<open>
  Claim C6. For an array whose elements are all valid pairs or triples (two finite
  numbers, a latitude in \<open>[-90, 90]\<close> and a longitude in \<open>[-180, 180]\<close>, with at most one
  more entry), \<open>extractBalloonPositions\<close> returns as many positions as the array has
  elements, in the order of the array: the position at index \<open>i\<close> has the identifier
  \<^verbatim>\<open>balloon-{hourIndex}-{i}\<close>, the hour index given, and the two coordinates of the
  element at index \<open>i\<close>.
\<close>

theorem extract_valid_pairs:
  "list_all validPair items \<Longrightarrow>
   length (extractBalloonPositions (JArr items) h) = length items
   \<and> (\<forall>i<length items.
        id_pos (extractBalloonPositions (JArr items) h ! i)
          = ''balloon-'' @ toString_nat h @ ''-'' @ toString_nat i
        \<and> hourIndex (extractBalloonPositions (JArr items) h ! i) = Some h
        \<and> (\<exists>rest. items ! i =
              JArr (JNum (lat (extractBalloonPositions (JArr items) h ! i))
                    # JNum (lon (extractBalloonPositions (JArr items) h ! i)) # rest)))"
proof -
  assume v: "list_all validPair items"
  then have plain: "JThrowing \<notin> set items"
    using validPair_plain by (auto simp: list_all_iff)
  let ?f = "\<lambda>i. contribution h i (items ! i)"
  have out: "extractBalloonPositions (JArr items) h = concat (map ?f [0..<length items])"
    by (simp add: extract_array forEach_plain [OF plain])
  have one: "\<forall>i<length items. length (?f i) = 1"
  proof (intro allI impI)
    fix i assume "i < length items"
    then have "validPair (items ! i)" using v by (simp add: list_all_length)
    from contribution_validPair [OF this, of h i] show "length (?f i) = 1" by auto
  qed
  note c = concat_singletons [OF one]
  show ?thesis
  proof (intro conjI allI impI)
    show "length (extractBalloonPositions (JArr items) h) = length items"
      using c by (simp add: out)
  next
    fix i assume i: "i < length items"
    then have "validPair (items ! i)" using v by (simp add: list_all_length)
    from contribution_validPair [OF this, of h i] obtain p where
      p: "?f i = [p]" "id_pos p = balloonId h i" "hourIndex p = Some h"
         "\<exists>rest. items ! i = JArr (JNum (lat p) # JNum (lon p) # rest)"
      by blast
    have e: "extractBalloonPositions (JArr items) h ! i = p"
      using c i by (simp add: out p(1))
    show "id_pos (extractBalloonPositions (JArr items) h ! i)
          = ''balloon-'' @ toString_nat h @ ''-'' @ toString_nat i"
      unfolding e using p(2) by (simp add: balloonId_def)
    show "hourIndex (extractBalloonPositions (JArr items) h ! i) = Some h"
      unfolding e by (rule p(3))
    show "\<exists>rest. items ! i =
              JArr (JNum (lat (extractBalloonPositions (JArr items) h ! i))
                    # JNum (lon (extractBalloonPositions (JArr items) h ! i)) # rest)"
      unfolding e by (rule p(4))
  qed
qed

theorem extract_valid_pairs_witness:
  "list_all validPair [JArr [JNum (Fin 10), JNum (Fin 20)], JArr [JNum (Fin (- 90)), JNum (Fin 180), JNum (Fin 7)]]
   \<and> length (extractBalloonPositions
        (JArr [JArr [JNum (Fin 10), JNum (Fin 20)], JArr [JNum (Fin (- 90)), JNum (Fin 180), JNum (Fin 7)]]) 3) = 2
   \<and> id_pos (extractBalloonPositions
        (JArr [JArr [JNum (Fin 10), JNum (Fin 20)], JArr [JNum (Fin (- 90)), JNum (Fin 180), JNum (Fin 7)]]) 3 ! 1)
      = ''balloon-3-1''"
proof -
  let ?items = "[JArr [JNum (Fin 10), JNum (Fin 20)], JArr [JNum (Fin (- 90)), JNum (Fin 180), JNum (Fin 7)]]"
  have v: "list_all validPair ?items"
    by simp
  have s: "''balloon-'' @ toString_nat 3 @ ''-'' @ toString_nat 1 = ''balloon-3-1''"
    using balloonId_3_1 by (simp only: balloonId_def)
  note t = extract_valid_pairs [OF v, of 3]
  have n: "(1::nat) < length ?items" "length ?items = 2" by simp_all
  from t have "length (extractBalloonPositions (JArr ?items) 3) = length ?items" by blast
  then have l: "length (extractBalloonPositions (JArr ?items) 3) = 2" by (simp only: n)
  from t n(1) have "id_pos (extractBalloonPositions (JArr ?items) 3 ! 1)
      = ''balloon-'' @ toString_nat 3 @ ''-'' @ toString_nat 1" by blast
  then have "id_pos (extractBalloonPositions (JArr ?items) 3 ! 1) = ''balloon-3-1''"
    by (simp only: s)
  with v l show ?thesis by blast
qed

section \<open>Extraction: the shape of the payload\<close>

text \<open>
  Claim C7. \<open>extractBalloonPositions\<close> runs its loop over the raw sequence that the
  precedence of the specification picks: the payload itself when it is an array; else
  the array under \<^verbatim>\<open>balloons\<close>; else the array under \<^verbatim>\<open>data\<close>; else nothing. An array
  under \<^verbatim>\<open>balloons\<close> wins over one under \<^verbatim>\<open>data\<close>, a \<^verbatim>\<open>balloons\<close> that is not an array
  lets \<^verbatim>\<open>data\<close> through, and a payload of any other shape (an object with neither, a
  number, a string, a boolean, an object whose properties cannot be read) gives the
  empty list and no error.
\<close>

theorem extract_shape_dispatch:
  "extractBalloonPositions d h = fst (forEach h (rawSequence d) 0 [])
   \<and> extractBalloonPositions (JObj [(''balloons'', JArr xs), (''data'', JArr ys)]) h
       = extractBalloonPositions (JArr xs) h
   \<and> extractBalloonPositions (JObj [(''data'', JArr ys), (''balloons'', JArr xs)]) h
       = extractBalloonPositions (JArr xs) h
   \<and> extractBalloonPositions (JObj [(''data'', JArr ys)]) h = extractBalloonPositions (JArr ys) h
   \<and> extractBalloonPositions (JObj [(''balloons'', JStr s), (''data'', JArr ys)]) h
       = extractBalloonPositions (JArr ys) h
   \<and> extractBalloonPositions (JObj [(''positions'', JArr xs)]) h = []
   \<and> extractBalloonPositions (JNum x) h = []
   \<and> extractBalloonPositions (JStr s) h = []
   \<and> extractBalloonPositions (JBool b) h = []
   \<and> extractBalloonPositions JThrowing h = []"
  by (simp add: extract_rawSequence [symmetric])
     (simp add: extract_rawSequence rawSequence_def)

theorem extract_shape_dispatch_witness:
  "extractBalloonPositions
     (JObj [(''balloons'', JArr [JArr [JNum (Fin 1), JNum (Fin 2)]]), (''data'', JArr [])]) 0
   = [\<lparr>id_pos = balloonId 0 0, lat = Fin 1, lon = Fin 2, altitude = None,
       timestamp = None, hourIndex = Some 0\<rparr>]
   \<and> extractBalloonPositions (JObj [(''positions'', JArr [JArr [JNum (Fin 1), JNum (Fin 2)]])]) 0 = []"
  using extract_shape_dispatch
    [of "JNull" 0 "[JArr [JNum (Fin 1), JNum (Fin 2)]]" "[]" "[]" "Fin 0" True]
  by (simp add: extract_singleton contribution_pair)

section \<open>Extraction: no exception leaves the function\<close>

text \<open>
  Claim C8. \<open>extractBalloonPositions\<close> has a list for every payload: the model has no
  error result because the handler of the \<^verbatim>\<open>try\<close> block absorbs every exception. A null,
  undefined or empty payload gives the empty list. In an array none of whose elements
  throws when read, each element contributes, on its own and whatever the other
  elements are, the positions the callback pushes for it (one or none), in order: a
  malformed element is passed over and the rest is extracted. When reading an element
  throws, the \<^verbatim>\<open>try\<close> block does end with an exception, and the function returns the
  positions gathered from the elements before it: it returns what the block had
  gathered (the empty list at worst) whenever the block ends with an exception.
\<close>

theorem extract_never_raises:
  "extractBalloonPositions JNull h = []
   \<and> extractBalloonPositions JUndefined h = []
   \<and> extractBalloonPositions (JArr []) h = []
   \<and> extractBalloonPositions (JObj []) h = []
   \<and> (JThrowing \<notin> set items \<longrightarrow>
        extractBalloonPositions (JArr items) h
          = concat (map (\<lambda>i. contribution h i (items ! i)) [0..<length items]))
   \<and> snd (tryBlock (JArr (xs @ JThrowing # ys)) h) \<noteq> None
   \<and> extractBalloonPositions (JArr (xs @ JThrowing # ys)) h = extractBalloonPositions (JArr xs) h
   \<and> (truthy d \<and> typeof d = ''object'' \<and> snd (tryBlock d h) \<noteq> None \<longrightarrow>
        extractBalloonPositions d h = fst (tryBlock d h))
   \<and> snd (tryBlock JThrowing h) = Some Thrown
   \<and> extractBalloonPositions JThrowing h = []"
proof -
  have a: "JThrowing \<notin> set items \<longrightarrow>
        extractBalloonPositions (JArr items) h
          = concat (map (\<lambda>i. contribution h i (items ! i)) [0..<length items])"
    by (simp add: extract_array forEach_plain)
  have b: "snd (tryBlock (JArr (xs @ JThrowing # ys)) h) \<noteq> None"
    "extractBalloonPositions (JArr (xs @ JThrowing # ys)) h = extractBalloonPositions (JArr xs) h"
    using forEach_stops [of h xs ys 0 "[]"] by (simp_all add: extract_array tryBlock_def)
  show ?thesis
    using a b by (simp add: extractBalloonPositions_def) (simp add: tryBlock_def)
qed

theorem extract_never_raises_witness:
  "extractBalloonPositions
     (JArr [JArr [JNum (Fin 1), JNum (Fin 2)], JStr ''bad'', JArr [JNum (Fin 3), JNum (Fin 4)]]) 0
   = [\<lparr>id_pos = ''balloon-0-0'', lat = Fin 1, lon = Fin 2, altitude = None,
        timestamp = None, hourIndex = Some 0\<rparr>,
      \<lparr>id_pos = ''balloon-0-2'', lat = Fin 3, lon = Fin 4, altitude = None,
        timestamp = None, hourIndex = Some 0\<rparr>]
   \<and> extractBalloonPositions
       (JArr ([JArr [JNum (Fin 1), JNum (Fin 2)]] @ JThrowing # [JArr [JNum (Fin 3), JNum (Fin 4)]])) 0
     = [\<lparr>id_pos = ''balloon-0-0'', lat = Fin 1, lon = Fin 2, altitude = None,
          timestamp = None, hourIndex = Some 0\<rparr>]"
proof -
  have c: "contribution 0 (Suc 0) (JStr ''bad'') = []"
    by (simp add: contribution_def forEachBody_def readCoords_def)
  have i: "balloonId 0 0 = ''balloon-0-0''" "balloonId 0 (Suc (Suc 0)) = ''balloon-0-2''"
    by code_simp+
  have s: "extractBalloonPositions (JArr [JArr [JNum (Fin 1), JNum (Fin 2)]]) 0
     = [\<lparr>id_pos = ''balloon-0-0'', lat = Fin 1, lon = Fin 2, altitude = None,
          timestamp = None, hourIndex = Some 0\<rparr>]"
    by (simp add: extract_singleton contribution_pair i)
  note t = extract_never_raises
    [of 0 "[JArr [JNum (Fin 1), JNum (Fin 2)], JStr ''bad'', JArr [JNum (Fin 3), JNum (Fin 4)]]"
        "[JArr [JNum (Fin 1), JNum (Fin 2)]]" "[JArr [JNum (Fin 3), JNum (Fin 4)]]" JNull]
  from t show ?thesis
    by (simp add: upt_rec c contribution_pair i s)
qed

section \<open>Facts about the merge\<close>

lemma map_of_map_set: "map_of (map_set m k v) = (map_of m)(k \<mapsto> v)"
  by (induction m) (auto simp: fun_eq_iff)

lemma in_fst_image: "(k, v) \<in> set m \<Longrightarrow> k \<in> fst ` set m"
  by force

lemma keys_map_set:
  "map fst (map_set m k v) = (if k \<in> set (map fst m) then map fst m else map fst m @ [k])"
  by (induction m) (auto dest: in_fst_image)

lemma wellFormed_map_set: "wellFormed m \<Longrightarrow> wellFormed (map_set m (id_pos p) p)"
proof (induction m)
  case Nil
  then show ?case by (simp add: wellFormed_def)
next
  case (Cons e m)
  then have "wellFormed m" by (simp add: wellFormed_def)
  from Cons.IH [OF this] Cons.prems show ?case
    by (cases e) (auto simp: wellFormed_def keys_map_set dest: in_fst_image split: if_splits)
qed

lemma wellFormed_mergeStep: "wellFormed m \<Longrightarrow> wellFormed (mergeStep m p)"
  by (simp add: mergeStep_def wellFormed_map_set)

lemma wellFormed_foldl: "wellFormed m \<Longrightarrow> wellFormed (foldl mergeStep m ps)"
  by (induction ps arbitrary: m) (simp_all add: wellFormed_mergeStep)

lemma wellFormed_mergeHours: "wellFormed m \<Longrightarrow> wellFormed (mergeHours ds h m)"
  by (induction ds arbitrary: h m) (simp_all add: wellFormed_foldl)

lemma wellFormed_ids: "wellFormed m \<Longrightarrow> map id_pos (map snd m) = map fst m"
  by (induction m) (auto simp: wellFormed_def)

lemma mergeStep_lookup:
  "map_of (mergeStep m p) k =
     (if k = id_pos p \<and> (map_of m k = None \<or> hourOr24 (Some p) < hourOr24 (map_of m k))
      then Some p else map_of m k)"
  by (auto simp: mergeStep_def map_has_def map_of_map_set)

text \<open>After a step, and after any further steps, the candidate's key holds an hour no later than the candidate's.\<close>

lemma mergeStep_bound:
  "map_of (mergeStep m p) (id_pos p) \<noteq> None \<and>
   hourOr24 (map_of (mergeStep m p) (id_pos p)) \<le> hourOr24 (Some p)"
  by (auto simp: mergeStep_lookup)

lemma mergeStep_keeps_bound:
  "map_of m k \<noteq> None \<Longrightarrow> hourOr24 (map_of m k) \<le> c \<Longrightarrow>
   map_of (mergeStep m q) k \<noteq> None \<and> hourOr24 (map_of (mergeStep m q) k) \<le> c"
  by (auto simp: mergeStep_lookup)

lemma foldl_keeps_bound:
  "map_of m k \<noteq> None \<Longrightarrow> hourOr24 (map_of m k) \<le> c \<Longrightarrow>
   map_of (foldl mergeStep m qs) k \<noteq> None \<and> hourOr24 (map_of (foldl mergeStep m qs) k) \<le> c"
proof (induction qs arbitrary: m)
  case Nil
  then show ?case by simp
next
  case (Cons q qs)
  from mergeStep_keeps_bound [OF Cons.prems, of q] Cons.IH [of "mergeStep m q"]
  show ?case by simp
qed

lemma foldl_bound:
  "p \<in> set ps \<Longrightarrow>
   map_of (foldl mergeStep m ps) (id_pos p) \<noteq> None \<and>
   hourOr24 (map_of (foldl mergeStep m ps) (id_pos p)) \<le> hourOr24 (Some p)"
proof (induction ps arbitrary: m)
  case Nil
  then show ?case by simp
next
  case (Cons q qs)
  show ?case
  proof (cases "p = q")
    case True
    from mergeStep_bound [of m p] foldl_keeps_bound [of "mergeStep m p" "id_pos p" "hourOr24 (Some p)" qs]
    show ?thesis by (simp add: True)
  next
    case False
    with Cons.prems have "p \<in> set qs" by simp
    from Cons.IH [OF this, of "mergeStep m q"] show ?thesis by simp
  qed
qed

lemma mergeStep_noop:
  "map_of m (id_pos p) \<noteq> None \<Longrightarrow> hourOr24 (map_of m (id_pos p)) \<le> hourOr24 (Some p) \<Longrightarrow>
   mergeStep m p = m"
  by (auto simp: mergeStep_def map_has_def)

lemma foldl_noop:
  "(\<forall>p \<in> set ps. map_of m (id_pos p) \<noteq> None \<and> hourOr24 (map_of m (id_pos p)) \<le> hourOr24 (Some p))
   \<Longrightarrow> foldl mergeStep m ps = m"
  by (induction ps) (simp_all add: mergeStep_noop)

lemma merge_idempotent:
  "foldl mergeStep (foldl mergeStep m ps) ps = foldl mergeStep m ps"
  by (rule foldl_noop) (use foldl_bound in blast)

section \<open>Facts about the merged output\<close>

lemma extractAll_distinct: "distinct (map id_pos (extractAllBalloonPositions ds))"
proof -
  have w: "wellFormed (mergeHours ds 0 [])"
    by (rule wellFormed_mergeHours) (simp add: wellFormed_def)
  then have d: "distinct (map fst (mergeHours ds 0 []))" by (simp add: wellFormed_def)
  show ?thesis
    unfolding extractAllBalloonPositions_def wellFormed_ids [OF w] by (rule d)
qed

lemma mergeStep_other_keys: "k \<noteq> id_pos p \<Longrightarrow> map_of (mergeStep m p) k = map_of m k"
  by (simp add: mergeStep_lookup)

lemma extractAll_hours_0_5:
  "extractAllBalloonPositions
     [JArr [JArr [JNum (Fin 1), JNum (Fin 2)]], JNull, JNull, JNull, JNull,
      JArr [JArr [JNum (Fin 1), JNum (Fin 2)]]]
   = [\<lparr>id_pos = ''balloon-0-0'', lat = Fin 1, lon = Fin 2, altitude = None,
        timestamp = None, hourIndex = Some 0\<rparr>,
      \<lparr>id_pos = ''balloon-5-0'', lat = Fin 1, lon = Fin 2, altitude = None,
        timestamp = None, hourIndex = Some 5\<rparr>]"
proof -
  have i: "balloonId 0 0 = ''balloon-0-0''" "balloonId (Suc (Suc (Suc (Suc (Suc 0))))) 0 = ''balloon-5-0''"
    by code_simp+
  have n: "Some (Suc (Suc (Suc (Suc (Suc 0))))) = Some (5::nat)" by simp
  show ?thesis
    by (simp add: extractAllBalloonPositions_def extract_singleton contribution_pair i
        mergeStep_def map_has_def n)
qed


section \<open>Facts about identifiers\<close>

lemma digitsVal_snoc: "digitsVal (xs @ [c]) = 10 * digitsVal xs + digitVal c"
  by (simp add: digitsVal_def)

lemma digitVal_digit: "k < 10 \<Longrightarrow> digitVal (char_of (48 + k)) = k"
  by (simp add: digitVal_def)

lemma digitsVal_toString_nat: "digitsVal (toString_nat n) = n"
proof (induction n rule: toString_nat.induct)
  case (1 n)
  show ?case
  proof (cases "n < 10")
    case True
    then show ?thesis
      by (subst toString_nat.simps) (simp add: digitsVal_def digitVal_digit)
  next
    case False
    then have "digitsVal (toString_nat (n div 10)) = n div 10" using "1.IH" by simp
    then show ?thesis using False
      by (subst toString_nat.simps) (simp add: digitsVal_snoc digitVal_digit)
  qed
qed

lemma digit_not_dash: "(k::nat) < 10 \<Longrightarrow> char_of (48 + k) \<noteq> CHR ''-''"
proof
  assume k: "k < 10" and e: "char_of (48 + k) = CHR ''-''"
  from e have "(of_char (char_of (48 + k)) :: nat) = of_char CHR ''-''" by simp
  then show False using k by simp
qed

lemma no_dash_toString_nat: "CHR ''-'' \<notin> set (toString_nat n)"
proof (induction n rule: toString_nat.induct)
  case (1 n)
  show ?case
  proof (cases "n < 10")
    case True
    then show ?thesis using digit_not_dash [of n]
      by (subst toString_nat.simps) auto
  next
    case False
    then have "CHR ''-'' \<notin> set (toString_nat (n div 10))" using "1.IH" by simp
    moreover have "char_of (48 + n mod 10) \<noteq> CHR ''-''" by (rule digit_not_dash) simp
    ultimately show ?thesis using False
      by (subst toString_nat.simps) auto
  qed
qed

lemma balloonId_inj: "balloonId h i = balloonId h' i' \<Longrightarrow> h = h' \<and> i = i'"
proof -
  assume "balloonId h i = balloonId h' i'"
  then have "toString_nat h @ CHR ''-'' # toString_nat i = toString_nat h' @ CHR ''-'' # toString_nat i'"
    by (simp add: balloonId_def)
  then have "toString_nat h = toString_nat h' \<and> toString_nat i = toString_nat i'"
    by (simp add: append_Cons_eq_iff no_dash_toString_nat)
  then have "digitsVal (toString_nat h) = digitsVal (toString_nat h')"
    "digitsVal (toString_nat i) = digitsVal (toString_nat i')" by simp_all
  then show ?thesis by (simp add: digitsVal_toString_nat)
qed

lemma forEach_ids:
  "\<exists>is. distinct is \<and> (\<forall>i \<in> set is. idx \<le> i) \<and>
     map id_pos (fst (forEach h items idx acc)) = map id_pos acc @ map (balloonId h) is"
proof (induction items arbitrary: idx acc)
  case Nil
  have "distinct ([]::nat list) \<and> (\<forall>i \<in> set ([]::nat list). idx \<le> i) \<and>
     map id_pos (fst (forEach h [] idx acc)) = map id_pos acc @ map (balloonId h) []" by simp
  then show ?case by blast
next
  case (Cons item items)
  show ?case
  proof (cases "forEachBody h acc item idx")
    case (Inl e)
    then have "distinct ([]::nat list) \<and> (\<forall>i \<in> set ([]::nat list). idx \<le> i) \<and>
      map id_pos (fst (forEach h (item # items) idx acc)) = map id_pos acc @ map (balloonId h) []"
      by simp
    then show ?thesis by blast
  next
    case (Inr ps)
    then have ps: "ps = acc @ contribution h idx item" by (rule forEachBody_result)
    from Cons.IH [of "Suc idx" ps] obtain js where js: "distinct js" "\<forall>i \<in> set js. Suc idx \<le> i"
      "map id_pos (fst (forEach h items (Suc idx) ps)) = map id_pos ps @ map (balloonId h) js"
      by blast
    have f: "fst (forEach h (item # items) idx acc) = fst (forEach h items (Suc idx) ps)"
      using Inr by simp
    from contribution_cases [of h idx item]
    have "map id_pos (contribution h idx item) = [] \<or>
          map id_pos (contribution h idx item) = [balloonId h idx]" by auto
    then show ?thesis
    proof
      assume "map id_pos (contribution h idx item) = []"
      then have "distinct js \<and> (\<forall>i \<in> set js. idx \<le> i) \<and>
        map id_pos (fst (forEach h (item # items) idx acc)) = map id_pos acc @ map (balloonId h) js"
        using js f ps by auto
      then show ?thesis by blast
    next
      assume "map id_pos (contribution h idx item) = [balloonId h idx]"
      then have "distinct (idx # js) \<and> (\<forall>i \<in> set (idx # js). idx \<le> i) \<and>
        map id_pos (fst (forEach h (item # items) idx acc))
          = map id_pos acc @ map (balloonId h) (idx # js)"
        using js f ps by auto
      then show ?thesis by blast
    qed
  qed
qed

lemma extract_ids:
  "\<exists>is. distinct is \<and> map id_pos (extractBalloonPositions d h) = map (balloonId h) is"
  using forEach_ids [of 0 h "rawSequence d" "[]"] by (auto simp: extract_rawSequence)

lemma candidates_ids:
  "\<exists>prs. distinct prs \<and> (\<forall>pr \<in> set prs. h \<le> fst pr) \<and>
     map id_pos (candidates extractBalloonPositions ds h) = map (\<lambda>pr. balloonId (fst pr) (snd pr)) prs"
proof (induction ds arbitrary: h)
  case Nil
  have "distinct ([]::(nat \<times> nat) list) \<and> (\<forall>pr \<in> set ([]::(nat \<times> nat) list). h \<le> fst pr) \<and>
     map id_pos (candidates extractBalloonPositions [] h) = map (\<lambda>pr. balloonId (fst pr) (snd pr)) []"
    by simp
  then show ?case by blast
next
  case (Cons d ds)
  from Cons.IH [of "Suc h"] obtain prs where prs: "distinct prs" "\<forall>pr \<in> set prs. Suc h \<le> fst pr"
    "map id_pos (candidates extractBalloonPositions ds (Suc h))
       = map (\<lambda>pr. balloonId (fst pr) (snd pr)) prs" by blast
  obtain js where js: "distinct js"
    "map id_pos (if \<not> truthy d then [] else extractBalloonPositions d h) = map (balloonId h) js"
  proof (cases "truthy d")
    case True
    from extract_ids [of d h] obtain js where "distinct js"
      "map id_pos (extractBalloonPositions d h) = map (balloonId h) js" by blast
    then show ?thesis using True that by simp
  next
    case False
    then show ?thesis using that [of "[]"] by simp
  qed
  have d1: "distinct (map (Pair h) js)" using js(1) by (simp add: distinct_map inj_on_def)
  have d2: "set (map (Pair h) js) \<inter> set prs = {}" using prs(2) by fastforce
  have "distinct (map (Pair h) js @ prs) \<and> (\<forall>pr \<in> set (map (Pair h) js @ prs). h \<le> fst pr) \<and>
     map id_pos (candidates extractBalloonPositions (d # ds) h)
       = map (\<lambda>pr. balloonId (fst pr) (snd pr)) (map (Pair h) js @ prs)"
    using d1 d2 prs js by (auto simp: comp_def)
  then show ?case by blast
qed

lemma candidates_distinct: "distinct (map id_pos (candidates extractBalloonPositions ds h))"
proof -
  from candidates_ids [of h ds] obtain prs where prs: "distinct prs"
    "map id_pos (candidates extractBalloonPositions ds h) = map (\<lambda>pr. balloonId (fst pr) (snd pr)) prs"
    by blast
  have "inj_on (\<lambda>pr. balloonId (fst pr) (snd pr)) (set prs)"
    by (rule inj_onI) (auto dest: balloonId_inj simp: prod_eq_iff)
  then show ?thesis using prs by (simp add: distinct_map)
qed


section \<open>Facts about the merging loop\<close>

lemma mergeHours_mergeWith: "mergeHours ds h m = mergeWith extractBalloonPositions ds h m"
  by (induction ds arbitrary: h m) simp_all

lemma mergeWith_foldl: "mergeWith f ds h m = foldl mergeStep m (candidates f ds h)"
  by (induction ds arbitrary: h m) simp_all

lemma map_set_fresh: "k \<notin> fst ` set m \<Longrightarrow> map_set m k v = m @ [(k, v)]"
  by (induction m) auto

lemma mergeStep_fresh: "id_pos p \<notin> fst ` set m \<Longrightarrow> mergeStep m p = m @ [(id_pos p, p)]"
  by (simp add: mergeStep_def map_has_def map_set_fresh map_of_eq_None_iff)

lemma foldl_fresh:
  "distinct (map id_pos ps) \<Longrightarrow> fst ` set m \<inter> id_pos ` set ps = {} \<Longrightarrow>
   foldl mergeStep m ps = m @ map (\<lambda>p. (id_pos p, p)) ps"
proof (induction ps arbitrary: m)
  case Nil
  then show ?case by simp
next
  case (Cons p ps)
  from Cons.prems have f: "id_pos p \<notin> fst ` set m" by auto
  have "fst ` set (m @ [(id_pos p, p)]) \<inter> id_pos ` set ps = {}"
    using Cons.prems by auto
  with Cons.IH [of "m @ [(id_pos p, p)]"] Cons.prems(1)
  show ?case by (simp add: mergeStep_fresh [OF f])
qed

lemma extractAll_candidates:
  "extractAllBalloonPositions ds = candidates extractBalloonPositions ds 0"
proof -
  have "foldl mergeStep [] (candidates extractBalloonPositions ds 0)
      = [] @ map (\<lambda>p. (id_pos p, p)) (candidates extractBalloonPositions ds 0)"
    by (rule foldl_fresh) (simp_all add: candidates_distinct)
  then show ?thesis
    by (simp add: extractAllBalloonPositions_def mergeHours_mergeWith mergeWith_foldl comp_def)
qed

lemma values_map_set: "snd ` set (map_set m k v) \<subseteq> insert v (snd ` set m)"
  by (induction m) (auto split: if_splits, force+)

lemma values_mergeStep: "snd ` set (mergeStep m p) \<subseteq> insert p (snd ` set m)"
  using values_map_set [of m "id_pos p" p] by (auto simp: mergeStep_def)

lemma values_foldl: "snd ` set (foldl mergeStep m ps) \<subseteq> snd ` set m \<union> set ps"
proof (induction ps arbitrary: m)
  case Nil
  then show ?case by simp
next
  case (Cons p ps)
  from Cons.IH [of "mergeStep m p"] values_mergeStep [of m p] show ?case by auto
qed

lemma mergeWith_distinct: "distinct (map id_pos (map snd (mergeWith f ds 0 [])))"
proof -
  have w: "wellFormed (foldl mergeStep [] (candidates f ds 0))"
    by (rule wellFormed_foldl) (simp add: wellFormed_def)
  then have "distinct (map fst (foldl mergeStep [] (candidates f ds 0)))"
    by (simp add: wellFormed_def)
  then show ?thesis unfolding mergeWith_foldl wellFormed_ids [OF w] .
qed

lemma mergeWith_from_candidates: "set (map snd (mergeWith f ds 0 [])) \<subseteq> set (candidates f ds 0)"
  using values_foldl [of "[]" "candidates f ds 0"] by (simp add: mergeWith_foldl)

lemma wellFormed_entry: "wellFormed m \<Longrightarrow> map_of m k = Some e \<Longrightarrow> e \<in> snd ` set m \<and> id_pos e = k"
proof -
  assume w: "wellFormed m" and l: "map_of m k = Some e"
  from l have i: "(k, e) \<in> set m" by (rule map_of_SomeD)
  then have "e \<in> snd ` set m" by force
  moreover from w i have "id_pos e = k" by (auto simp: wellFormed_def list_all_iff)
  ultimately show ?thesis by simp
qed

lemma mergeWith_earliest:
  assumes "p \<in> set (candidates f ds 0)"
  shows "\<exists>e \<in> set (map snd (mergeWith f ds 0 [])).
           id_pos e = id_pos p \<and> hourOr24 (Some e) \<le> hourOr24 (Some p)"
proof -
  let ?m = "foldl mergeStep [] (candidates f ds 0)"
  have w: "wellFormed ?m" by (rule wellFormed_foldl) (simp add: wellFormed_def)
  from foldl_bound [OF assms, of "[]"] obtain e where
    e: "map_of ?m (id_pos p) = Some e" and b: "hourOr24 (map_of ?m (id_pos p)) \<le> hourOr24 (Some p)"
    by auto
  from wellFormed_entry [OF w e] have "e \<in> set (map snd ?m)" "id_pos e = id_pos p" by simp_all
  moreover from b e have "hourOr24 (Some e) \<le> hourOr24 (Some p)" by simp
  ultimately show ?thesis unfolding mergeWith_foldl by blast
qed

lemma mergeWith_idempotent: "mergeWith f ds 0 (mergeWith f ds 0 []) = mergeWith f ds 0 []"
  by (simp add: mergeWith_foldl merge_idempotent)

lemma mergeWith_later_dropped:
  assumes "p \<in> set (candidates f ds 0)" "id_pos p = id_pos q"
    "hourOr24 (Some p) < hourOr24 (Some q)"
  shows "q \<notin> set (map snd (mergeWith f ds 0 []))"
proof
  assume q: "q \<in> set (map snd (mergeWith f ds 0 []))"
  from mergeWith_earliest [OF assms(1)] obtain e where
    e: "e \<in> set (map snd (mergeWith f ds 0 []))" "id_pos e = id_pos p"
       "hourOr24 (Some e) \<le> hourOr24 (Some p)" by blast
  from mergeWith_distinct [of f ds]
  have "inj_on id_pos (set (map snd (mergeWith f ds 0 [])))" by (simp only: distinct_map)
  from inj_onD [OF this _ e(1) q] e(2) assms(2) have "e = q" by simp
  with e(3) assms(3) show False by simp
qed

lemma mergeWith_collision:
  assumes "truthy d0" "truthy d5" "f d0 0 = [x0]" "f d5 5 = [x5]"
    "id_pos x0 = id_pos x5" "hourIndex x0 = Some 0" "hourIndex x5 = Some 5"
  shows "map snd (mergeWith f [d0, JNull, JNull, JNull, JNull, d5] 0 []) = [x0]"
proof -
  have e: "Suc (Suc (Suc (Suc (Suc 0)))) = 5" by simp
  show ?thesis
    using assms by (simp add: e mergeStep_def map_has_def hourOr24_def)
qed


section \<open>Merging: one position for each identifier\<close>

text \<open>
  Claim C5. For every list of hourly payloads the identifiers of the positions that
  \<open>extractAllBalloonPositions\<close> returns are distinct. A step of the merge leaves every
  other key alone; under the candidate's key it puts the candidate when the key is new
  or when the entry there has an hour index strictly greater than the candidate's, and
  leaves the entry there otherwise. So when two positions share an identifier, one of
  hour 0 and one of hour 5, the merge keeps the one of hour 0, in whichever order they
  come. Merging the same positions once more changes nothing.

  The loop of \<open>extractAllBalloonPositions\<close> is \<open>mergeWith\<close> run with
  \<open>extractBalloonPositions\<close>. With that extractor an identifier names its hour and its
  index, no two candidates share one, and the output is the list of all candidates: the
  positions of every truthy payload, hour after hour. With any extractor \<open>f\<close>, also one
  whose identifiers collide across hours, the output of the loop has distinct
  identifiers, every position in it is a candidate, every candidate's identifier is in
  it with an hour index no greater than the candidate's, and a position \<open>q\<close> that shares
  its identifier with a candidate of a strictly smaller hour index is not in it; if the
  payload of hour 0 gives the one position \<open>yA\<close> and the payload of hour 5 the one position
  \<open>yB\<close> of the same identifier, the output is \<open>yA\<close> alone. Running the loop again on its
  own result changes nothing.
\<close>

theorem merge_prefers_recent:
  "distinct (map id_pos (extractAllBalloonPositions ds))
   \<and> (k \<noteq> id_pos p \<longrightarrow> map_of (mergeStep m p) k = map_of m k)
   \<and> (map_of m (id_pos p) = None \<longrightarrow> map_of (mergeStep m p) (id_pos p) = Some p)
   \<and> (map_of m (id_pos p) = Some e \<longrightarrow>
        map_of (mergeStep m p) (id_pos p)
          = (if hourOr24 (Some p) < hourOr24 (Some e) then Some p else Some e))
   \<and> (id_pos xA = id_pos xB \<and> hourIndex xA = Some 0 \<and> hourIndex xB = Some 5 \<longrightarrow>
        map snd (foldl mergeStep [] [xA, xB]) = [xA]
        \<and> map snd (foldl mergeStep [] [xB, xA]) = [xA])
   \<and> foldl mergeStep (foldl mergeStep m ps) ps = foldl mergeStep m ps
   \<and> mergeHours ds h m = mergeWith extractBalloonPositions ds h m
   \<and> extractAllBalloonPositions ds = map snd (mergeWith extractBalloonPositions ds 0 [])
   \<and> extractAllBalloonPositions ds = candidates extractBalloonPositions ds 0
   \<and> (balloonId h i = balloonId h' i' \<longrightarrow> h = h' \<and> i = i')
   \<and> distinct (map id_pos (candidates extractBalloonPositions ds 0))
   \<and> distinct (map id_pos (map snd (mergeWith f ds 0 [])))
   \<and> set (map snd (mergeWith f ds 0 [])) \<subseteq> set (candidates f ds 0)
   \<and> (\<forall>c \<in> set (candidates f ds 0). \<exists>r \<in> set (map snd (mergeWith f ds 0 [])).
         id_pos r = id_pos c \<and> hourOr24 (Some r) \<le> hourOr24 (Some c))
   \<and> (\<forall>c \<in> set (candidates f ds 0).
         id_pos c = id_pos q \<and> hourOr24 (Some c) < hourOr24 (Some q) \<longrightarrow>
         q \<notin> set (map snd (mergeWith f ds 0 [])))
   \<and> (truthy dA \<and> truthy dB \<and> f dA 0 = [yA] \<and> f dB 5 = [yB] \<and> id_pos yA = id_pos yB
        \<and> hourIndex yA = Some 0 \<and> hourIndex yB = Some 5 \<longrightarrow>
        map snd (mergeWith f [dA, JNull, JNull, JNull, JNull, dB] 0 []) = [yA])
   \<and> mergeWith f ds 0 (mergeWith f ds 0 []) = mergeWith f ds 0 []"
proof (intro conjI impI ballI)
  show "distinct (map id_pos (extractAllBalloonPositions ds))" by (rule extractAll_distinct)
next
  assume "k \<noteq> id_pos p"
  then show "map_of (mergeStep m p) k = map_of m k" by (rule mergeStep_other_keys)
next
  assume "map_of m (id_pos p) = None"
  then show "map_of (mergeStep m p) (id_pos p) = Some p" by (simp add: mergeStep_lookup)
next
  assume "map_of m (id_pos p) = Some e"
  then show "map_of (mergeStep m p) (id_pos p)
          = (if hourOr24 (Some p) < hourOr24 (Some e) then Some p else Some e)"
    by (simp add: mergeStep_lookup)
next
  assume a: "id_pos xA = id_pos xB \<and> hourIndex xA = Some 0 \<and> hourIndex xB = Some 5"
  then show "map snd (foldl mergeStep [] [xA, xB]) = [xA]"
    by (simp add: mergeStep_def map_has_def hourOr24_def)
  from a show "map snd (foldl mergeStep [] [xB, xA]) = [xA]"
    by (simp add: mergeStep_def map_has_def hourOr24_def)
next
  show "foldl mergeStep (foldl mergeStep m ps) ps = foldl mergeStep m ps"
    by (rule merge_idempotent)
next
  show "mergeHours ds h m = mergeWith extractBalloonPositions ds h m"
    by (rule mergeHours_mergeWith)
next
  show "extractAllBalloonPositions ds = map snd (mergeWith extractBalloonPositions ds 0 [])"
    by (simp add: extractAllBalloonPositions_def mergeHours_mergeWith)
next
  show "extractAllBalloonPositions ds = candidates extractBalloonPositions ds 0"
    by (rule extractAll_candidates)
next
  assume "balloonId h i = balloonId h' i'"
  then have "h = h' \<and> i = i'" by (rule balloonId_inj)
  then show "h = h'" "i = i'" by simp_all
next
  show "distinct (map id_pos (candidates extractBalloonPositions ds 0))"
    by (rule candidates_distinct)
next
  show "distinct (map id_pos (map snd (mergeWith f ds 0 [])))" by (rule mergeWith_distinct)
next
  show "set (map snd (mergeWith f ds 0 [])) \<subseteq> set (candidates f ds 0)"
    by (rule mergeWith_from_candidates)
next
  fix c assume "c \<in> set (candidates f ds 0)"
  then show "\<exists>r \<in> set (map snd (mergeWith f ds 0 [])).
         id_pos r = id_pos c \<and> hourOr24 (Some r) \<le> hourOr24 (Some c)"
    by (rule mergeWith_earliest)
next
  fix c assume "c \<in> set (candidates f ds 0)"
    "id_pos c = id_pos q \<and> hourOr24 (Some c) < hourOr24 (Some q)"
  then show "q \<notin> set (map snd (mergeWith f ds 0 []))"
    using mergeWith_later_dropped [of c f ds q] by simp
next
  assume "truthy dA \<and> truthy dB \<and> f dA 0 = [yA] \<and> f dB 5 = [yB] \<and> id_pos yA = id_pos yB
        \<and> hourIndex yA = Some 0 \<and> hourIndex yB = Some 5"
  then show "map snd (mergeWith f [dA, JNull, JNull, JNull, JNull, dB] 0 []) = [yA]"
    using mergeWith_collision [of dA dB f yA yB] by simp
next
  show "mergeWith f ds 0 (mergeWith f ds 0 []) = mergeWith f ds 0 []"
    by (rule mergeWith_idempotent)
qed

theorem merge_prefers_recent_witness:
  "map snd (mergeWith
      (\<lambda>d hourIdx. [\<lparr>id_pos = ''X'', lat = Fin 1, lon = Fin 2, altitude = None,
                      timestamp = None, hourIndex = Some hourIdx\<rparr>])
      [JBool True, JNull, JNull, JNull, JNull, JBool True] 0 [])
   = [\<lparr>id_pos = ''X'', lat = Fin 1, lon = Fin 2, altitude = None, timestamp = None,
        hourIndex = Some 0\<rparr>]
   \<and> map snd (foldl mergeStep []
      [\<lparr>id_pos = ''X'', lat = Fin 3, lon = Fin 4, altitude = None, timestamp = None,
         hourIndex = Some 5\<rparr>,
       \<lparr>id_pos = ''X'', lat = Fin 1, lon = Fin 2, altitude = None, timestamp = None,
         hourIndex = Some 0\<rparr>])
   = [\<lparr>id_pos = ''X'', lat = Fin 1, lon = Fin 2, altitude = None, timestamp = None,
        hourIndex = Some 0\<rparr>]
   \<and> extractAllBalloonPositions
       [JArr [JArr [JNum (Fin 1), JNum (Fin 2)]], JNull, JNull, JNull, JNull,
        JArr [JArr [JNum (Fin 1), JNum (Fin 2)]]]
     = candidates extractBalloonPositions
       [JArr [JArr [JNum (Fin 1), JNum (Fin 2)]], JNull, JNull, JNull, JNull,
        JArr [JArr [JNum (Fin 1), JNum (Fin 2)]]] 0"
proof -
  let ?f = "\<lambda>(d::js) hourIdx. [\<lparr>id_pos = ''X'', lat = Fin 1, lon = Fin 2, altitude = None,
                      timestamp = None, hourIndex = Some (hourIdx::nat)\<rparr>]"
  let ?x0 = "\<lparr>id_pos = ''X'', lat = Fin 1, lon = Fin 2, altitude = None, timestamp = None,
         hourIndex = Some (0::nat)\<rparr>"
  let ?x5 = "\<lparr>id_pos = ''X'', lat = Fin 3, lon = Fin 4, altitude = None, timestamp = None,
         hourIndex = Some (5::nat)\<rparr>"
  let ?y5 = "\<lparr>id_pos = ''X'', lat = Fin 1, lon = Fin 2, altitude = None, timestamp = None,
         hourIndex = Some (5::nat)\<rparr>"
  let ?ds = "[JArr [JArr [JNum (Fin 1), JNum (Fin 2)]], JNull, JNull, JNull, JNull,
        JArr [JArr [JNum (Fin 1), JNum (Fin 2)]]]"
  note t = merge_prefers_recent [where xA = ?x0 and xB = ?x5 and f = ?f and dA = "JBool True"
      and dB = "JBool True" and yA = ?x0 and yB = ?y5 and ds = ?ds]
  have h1: "id_pos ?x0 = id_pos ?x5 \<and> hourIndex ?x0 = Some 0 \<and> hourIndex ?x5 = Some 5" by simp
  have h2: "truthy (JBool True) \<and> truthy (JBool True) \<and> ?f (JBool True) 0 = [?x0]
        \<and> ?f (JBool True) 5 = [?y5] \<and> id_pos ?x0 = id_pos ?y5
        \<and> hourIndex ?x0 = Some 0 \<and> hourIndex ?y5 = Some 5" by simp
  from t h1 have a: "map snd (foldl mergeStep [] [?x5, ?x0]) = [?x0]" by blast
  from t h2 have b: "map snd (mergeWith ?f [JBool True, JNull, JNull, JNull, JNull, JBool True] 0 [])
     = [?x0]" by blast
  from t have c: "extractAllBalloonPositions ?ds = candidates extractBalloonPositions ?ds 0"
    by blast
  from a b c show ?thesis by blast
qed

section \<open>Facts about hazard styling\<close>






section \<open>Hazard styling: the advisory that matches no rule\<close>





section \<open>Facts about the ranking\<close>






lemma compareFn_inherited:
  "severityRank a = Inr NaN \<Longrightarrow> severityRank b = Inr y \<Longrightarrow>
   compareFn a b = Inr NaN \<and> compareFn b a = Inr NaN"
  by (simp add: compareFn_def js_sub_def split: jsnum.splits)























section \<open>Ranking the hazards for the list\<close>





section \<open>Facts about the navigation\<close>

lemma index_keys: "indexKey ''0'' = Some 0" "indexKey ''1'' = Some 1"
  by (simp_all add: indexKey_def isDigit_def digitsVal_def digitVal_def)

lemma lonLat_reads:
  assumes "lonLat c = Some (x, y)"
  shows "getProp c ''1'' = Inr (JNum (Fin y))" "getProp c ''0'' = Inr (JNum (Fin x))"
  using assms by (induction c rule: lonLat.induct) (simp_all add: index_keys)

lemma js_add_not_NaN: "s \<noteq> NaN \<Longrightarrow> js_add s (Fin y) \<noteq> NaN"
  by (cases s) (simp_all add: round64_not_NaN)

lemma foldl_js_add_not_NaN: "s \<noteq> NaN \<Longrightarrow> foldl js_add s (map Fin ys) \<noteq> NaN"
  by (induction ys arbitrary: s) (simp_all add: js_add_not_NaN)

lemma js_div_length_not_NaN: "s \<noteq> NaN \<Longrightarrow> 0 < n \<Longrightarrow> js_div_length s n \<noteq> NaN"
  by (cases s) (simp_all add: round64_not_NaN)

lemma sumCoord_lat:
  "map lonLat xs = map Some pts \<Longrightarrow>
   sumCoord ''1'' s xs = Inr (foldl js_add s (map Fin (map snd pts)))"
proof (induction xs arbitrary: s pts)
  case Nil
  then show ?case by simp
next
  case (Cons c xs)
  then obtain x y ps where p: "pts = (x, y) # ps" "lonLat c = Some (x, y)"
    "map lonLat xs = map Some ps" by (cases pts) auto
  show ?case by (simp add: p lonLat_reads [OF p(2)] Cons.IH [OF p(3)])
qed

lemma sumCoord_lon:
  "map lonLat xs = map Some pts \<Longrightarrow>
   sumCoord ''0'' s xs = Inr (foldl js_add s (map Fin (map fst pts)))"
proof (induction xs arbitrary: s pts)
  case Nil
  then show ?case by simp
next
  case (Cons c xs)
  then obtain x y ps where p: "pts = (x, y) # ps" "lonLat c = Some (x, y)"
    "map lonLat xs = map Some ps" by (cases pts) auto
  show ?case by (simp add: p lonLat_reads [OF p(2)] Cons.IH [OF p(3)])
qed

lemma newLatLng_numbers:
  "la \<noteq> NaN \<Longrightarrow> lo \<noteq> NaN \<Longrightarrow> newLatLng (JNum la) (JNum lo) = Inr (la, lo)"
  by (cases la; cases lo) (simp_all add: newLatLng_def isNaN_def)

lemma ringCenter_finite:
  assumes "map lonLat xs = map Some pts" "pts \<noteq> []"
  shows "ringCenter xs =
     Inr (js_div_length (foldl js_add (Fin 0) (map Fin (map snd pts))) (length pts),
          js_div_length (foldl js_add (Fin 0) (map Fin (map fst pts))) (length pts))"
proof -
  from assms(1) have l: "length xs = length pts" using map_eq_imp_length_eq by blast
  from assms(2) have n: "0 < length pts" by simp
  show ?thesis
proof -
    have a: "js_div_length (foldl js_add (Fin 0) (map Fin (map snd pts))) (length pts) \<noteq> NaN"
      by (rule js_div_length_not_NaN [OF foldl_js_add_not_NaN n]) simp
    have b: "js_div_length (foldl js_add (Fin 0) (map Fin (map fst pts))) (length pts) \<noteq> NaN"
      by (rule js_div_length_not_NaN [OF foldl_js_add_not_NaN n]) simp
    show ?thesis
      unfolding ringCenter_def sumCoord_lat [OF assms(1)] sumCoord_lon [OF assms(1)] l
      using newLatLng_numbers [OF a b] by simp
  qed
qed

lemma swapPairs_finite:
  "map lonLat xs = map Some pts \<Longrightarrow>
   swapPairs xs = Inr (map (\<lambda>(x, y). (JNum (Fin y), JNum (Fin x))) pts)"
proof (induction xs arbitrary: pts)
  case Nil
  then show ?case by simp
next
  case (Cons c xs)
  then obtain x y ps where p: "pts = (x, y) # ps" "lonLat c = Some (x, y)"
    "map lonLat xs = map Some ps" by (cases pts) auto
  show ?case by (simp add: p lonLat_reads [OF p(2)] Cons.IH [OF p(3)])
qed

lemma Min_insert_min:
  "finite S \<Longrightarrow> Min (insert (min x y) S) = Min (insert x (insert y S))"
  for x :: "'a::linorder"
  by (cases "S = {}") (simp_all add: min.assoc)

lemma Max_insert_max:
  "finite S \<Longrightarrow> Max (insert (max x y) S) = Max (insert x (insert y S))"
  for x :: "'a::linorder"
  by (cases "S = {}") (simp_all add: max.assoc)

lemma js_min_Fin: "js_min (Fin a) (Fin b) = Fin (min a b)"
  by (simp add: js_min_def isNaN_def min_def)

lemma js_max_Fin: "js_max (Fin a) (Fin b) = Fin (max a b)"
  by (simp add: js_max_def isNaN_def max_def)

lemma extendAll_finite:
  "extendAll \<lparr>southWest = Some (Fin a, Fin b), northEast = Some (Fin c, Fin d)\<rparr>
     (map (\<lambda>(x, y). (JNum (Fin y), JNum (Fin x))) pts)
   = Inr \<lparr>southWest = Some (Fin (Min (insert a (set (map snd pts)))),
                            Fin (Min (insert b (set (map fst pts))))),
          northEast = Some (Fin (Max (insert c (set (map snd pts)))),
                            Fin (Max (insert d (set (map fst pts)))))\<rparr>"
proof (induction pts arbitrary: a b c d)
  case Nil
  then show ?case by simp
next
  case (Cons p pts)
  obtain x y where p: "p = (x, y)" by (cases p)
  show ?case
    by (simp add: p newLatLng_def isNaN_def extend_bounds_def js_min_Fin js_max_Fin Cons.IH
        Min_insert_min Max_insert_max insert_commute)
qed

lemma newLatLngBounds_finite:
  assumes "pts \<noteq> []"
  shows "newLatLngBounds (map (\<lambda>(x, y). (JNum (Fin y), JNum (Fin x))) pts)
   = Inr \<lparr>southWest = Some (Fin (Min (set (map snd pts))), Fin (Min (set (map fst pts)))),
          northEast = Some (Fin (Max (set (map snd pts))), Fin (Max (set (map fst pts))))\<rparr>"
proof -
  obtain x y ps where p: "pts = (x, y) # ps" using assms by (cases pts) auto
  show ?thesis
    by (simp add: p newLatLngBounds_def newLatLng_def isNaN_def extend_bounds_def extendAll_finite)
qed

lemma flyToRing_finite:
  assumes "map lonLat xs = map Some pts" "pts \<noteq> []"
  shows "flyToRing (JArr xs) =
     Inr (Some (FlyToBounds
                  \<lparr>southWest = Some (Fin (Min (set (map snd pts))), Fin (Min (set (map fst pts)))),
                   northEast = Some (Fin (Max (set (map snd pts))), Fin (Max (set (map fst pts))))\<rparr>
                  100 12))"
  by (simp add: flyToRing_def ringCenter_finite [OF assms] swapPairs_finite [OF assms(1)]
      newLatLngBounds_finite [OF assms(2)])

lemma flyToRing_empty: "flyToRing (JArr []) = Inl InvalidLatLng"
  by (simp add: flyToRing_def ringCenter_def newLatLng_def isNaN_def)


section \<open>Facts about the example rings\<close>

lemma geoFeature_reads:
  "truthy (geoFeature t c)"
  "getProp (geoFeature t c) ''geometry'' = Inr (JObj [(''type'', JStr t), (''coordinates'', c)])"
  "truthy (JObj [(''type'', JStr t), (''coordinates'', c)])"
  "getProp (JObj [(''type'', JStr t), (''coordinates'', c)]) ''type'' = Inr (JStr t)"
  "getProp (JObj [(''type'', JStr t), (''coordinates'', c)]) ''coordinates'' = Inr c"
  by (simp_all add: geoFeature_def)

lemma array_reads:
  "getProp (JArr (a # as)) ''0'' = Inr a"
  "getProp (JArr (a # b # bs)) ''1'' = Inr b"
  "getProp (JArr []) ''0'' = Inr JUndefined"
  by (simp_all add: index_keys)

lemma lonLat_position: "lonLat (position x y) = Some (x, y)"
  by (simp add: position_def)

lemma ringCenter_square:
  "ringCenter [position 0 0, position 0 2, position 2 2, position 2 0] = Inr (Fin 1, Fin 1)"
  by (simp add: ringCenter_def position_def index_keys newLatLng_def isNaN_def r64_defs Let_def)

lemma ringCenter_triangle:
  "ringCenter [position 0 0, position 1 0, position 0 1]
   = Inr (Fin (6004799503160661 / 2 ^ 54), Fin (6004799503160661 / 2 ^ 54))"
  by (simp add: ringCenter_def position_def index_keys newLatLng_def isNaN_def r64_defs Let_def)

lemma MapController_square:
  "MapController (geoFeature ''Polygon''
      (JArr [JArr [position 0 0, position 0 2, position 2 2, position 2 0]]))
   = Inr (Some (FlyToBounds \<lparr>southWest = Some (Fin 0, Fin 0), northEast = Some (Fin 2, Fin 2)\<rparr>
                  100 12))"
proof -
  have "map lonLat [position 0 0, position 0 2, position 2 2, position 2 0]
      = map Some [(0, 0), (0, 2), (2, 2), (2, 0)]" by (simp add: lonLat_position)
  from flyToRing_finite [OF this] show ?thesis
    by (simp add: MapController_def geoFeature_reads index_keys)
qed

lemma MapController_triangle:
  "MapController (geoFeature ''Polygon'' (JArr [JArr [position 0 0, position 1 0, position 0 1]]))
   = Inr (Some (FlyToBounds \<lparr>southWest = Some (Fin 0, Fin 0), northEast = Some (Fin 1, Fin 1)\<rparr>
                  100 12))"
proof -
  have "map lonLat [position 0 0, position 1 0, position 0 1]
      = map Some [(0, 0), (1, 0), (0, 1)]" by (simp add: lonLat_position)
  from flyToRing_finite [OF this] show ?thesis
    by (simp add: MapController_def geoFeature_reads index_keys)
qed

lemma MapController_string_type:
  "MapController (geoFeature ''LineString'' (JArr [position 0 0, position 1 1])) = Inr None"
  "MapController (geoFeature ''point'' (position 3 4)) = Inr None"
  "MapController (geoFeature ''Point'' (position 3 4)) = Inr (Some (FlyTo (Fin 4, Fin 3) 10 (3 / 2)))"
  by (simp_all add: MapController_def geoFeature_reads position_def index_keys newLatLng_def isNaN_def)

end
